theory Spec2Isabelle
  imports Main "HOL-Library.AList"
begin

section \<open>Regular expressions as \<open>manparse.py\<close> uses them\<close>

text \<open>
  The module validates flags with three patterns, each given to \<open>re.match\<close>:
  \<^verbatim>\<open>^-[a-zA-Z]$\<close> (a short command at registration),
  \<^verbatim>\<open>^-[A-Za-z]+$\<close> (a short bundle at parse time) and
  \<^verbatim>\<open>^--[A-Za-z]{2,}[A-Za-z_]*[A-Za-z]$\<close> (a long command, at registration and at
  parse time). The patterns are kept as data and run by a derivative matcher, so that each
  pattern below can be read against the source text.
\<close>

datatype rexp =
    Nothing
  | Eps
  | Chars "(char \<times> char) list"
  | Alt rexp rexp
  | Seq rexp rexp
  | Star rexp

definition in_range :: "char \<Rightarrow> char \<times> char \<Rightarrow> bool" where
  "in_range c r = ((of_char (fst r) :: nat) \<le> of_char c \<and> (of_char c :: nat) \<le> of_char (snd r))"

definition in_class :: "char \<Rightarrow> (char \<times> char) list \<Rightarrow> bool" where
  "in_class c rs = list_ex (in_range c) rs"

fun nullable :: "rexp \<Rightarrow> bool" where
  "nullable Nothing = False"
| "nullable Eps = True"
| "nullable (Chars rs) = False"
| "nullable (Alt r s) = (nullable r \<or> nullable s)"
| "nullable (Seq r s) = (nullable r \<and> nullable s)"
| "nullable (Star r) = True"

fun deriv :: "char \<Rightarrow> rexp \<Rightarrow> rexp" where
  "deriv c Nothing = Nothing"
| "deriv c Eps = Nothing"
| "deriv c (Chars rs) = (if in_class c rs then Eps else Nothing)"
| "deriv c (Alt r s) = Alt (deriv c r) (deriv c s)"
| "deriv c (Seq r s) =
     (if nullable r then Alt (Seq (deriv c r) s) (deriv c s) else Seq (deriv c r) s)"
| "deriv c (Star r) = Seq (deriv c r) (Star r)"

fun matches :: "rexp \<Rightarrow> string \<Rightarrow> bool" where
  "matches r [] = nullable r"
| "matches r (c # cs) = matches (deriv c r) cs"

text \<open>
  \<open>re.match('^' r '$', s) is not None\<close>, without flags: the pattern must match from the
  start, and \<open>$\<close> stands at the end of the string or just before a newline that ends it.
\<close>

definition re_match :: "rexp \<Rightarrow> string \<Rightarrow> bool" where
  "re_match r s =
     (matches r s \<or> (s \<noteq> [] \<and> last s = CHR 0x0A \<and> matches r (butlast s)))"

definition letter :: rexp where
  "letter = Chars [(CHR ''A'', CHR ''Z''), (CHR ''a'', CHR ''z'')]"

definition letter_or_underscore :: rexp where
  "letter_or_underscore = Chars [(CHR ''A'', CHR ''Z''), (CHR ''a'', CHR ''z''), (CHR ''_'', CHR ''_'')]"

definition dash :: rexp where
  "dash = Chars [(CHR ''-'', CHR ''-'')]"

definition short_command_re :: rexp where
  "short_command_re = Seq dash (Chars [(CHR ''a'', CHR ''z''), (CHR ''A'', CHR ''Z'')])"

definition short_bundle_re :: rexp where
  "short_bundle_re = Seq dash (Seq letter (Star letter))"

definition long_command_re :: rexp where
  "long_command_re =
     Seq dash (Seq dash
       (Seq (Seq letter (Seq letter (Star letter)))
         (Seq (Star letter_or_underscore) letter)))"

text \<open>\<open>s.replace(old, '', 1)\<close> for the two uses of the module: one dash, or two.\<close>

definition replace_dash :: "string \<Rightarrow> string" where
  "replace_dash s = remove1 (CHR ''-'') s"

fun replace_dashdash :: "string \<Rightarrow> string" where
  "replace_dashdash (a # b # cs) =
     (if a = CHR ''-'' \<and> b = CHR ''-'' then cs else a # replace_dashdash (b # cs))"
| "replace_dashdash cs = cs"

definition is_letter :: "char \<Rightarrow> bool" where
  "is_letter c = in_class c [(CHR ''A'', CHR ''Z''), (CHR ''a'', CHR ''z'')]"

definition is_letter_or_underscore :: "char \<Rightarrow> bool" where
  "is_letter_or_underscore c = (is_letter c \<or> c = CHR ''_'')"

text \<open>
  The long-flag grammar in the words of the specification: \<open>--\<close>, then a name of at least
  two characters whose first and last characters are letters and whose interior
  characters are letters or underscores.
\<close>

definition spec_long_flag :: "string \<Rightarrow> bool" where
  "spec_long_flag s =
     (take 2 s = ''--'' \<and>
      (let name = drop 2 s in
         2 \<le> length name \<and> is_letter (hd name) \<and> is_letter (last name) \<and>
         list_all is_letter_or_underscore (butlast (tl name))))"

text \<open>
  The shape of a name that the pattern of the source describes, for a name of three
  characters or more: its first two characters and its last are letters, the others
  letters or underscores. \<open>code_long_flag\<close> is the whole token.
\<close>

definition long_name_shape :: "string \<Rightarrow> bool" where
  "long_name_shape name =
     (is_letter (name ! 0) \<and> is_letter (name ! 1) \<and> is_letter (last name) \<and>
      list_all is_letter_or_underscore name)"

definition code_long_flag :: "string \<Rightarrow> bool" where
  "code_long_flag s =
     (take 2 s = ''--'' \<and> 3 \<le> length (drop 2 s) \<and> long_name_shape (drop 2 s))"

section \<open>Python values and the type callables\<close>

text \<open>
  A parameter's \<open>type\<close> is one of the callables \<open>str\<close>, \<open>int\<close>, \<open>float\<close>, \<open>bool\<close>,
  \<open>FileType\<close>, \<open>DirType\<close>. The values they take and return are scalars; the namespace
  holds a scalar or a list of scalars. \<open>Suppress\<close> is the module's object \<open>SUPPRESS\<close>
  (the string \<open>'==SUPPRESS=='\<close>, recognised by identity); \<open>PyObj\<close> is an object of the
  platform (a float, an open file, a factory instance), opaque here.
\<close>

datatype scalar = PyNone | Suppress | PyBool bool | PyInt int | PyStr string | PyObj nat

datatype pyval = Scalar scalar | PyList "scalar list"

datatype ptype = TStr | TInt | TFloat | TBool | TFileType | TDirType | TOther

datatype exn =
  ValueError | IOError | TypeError | OverflowError | AttributeError | IndexError |
  UnboundLocalError | FactoryError

text \<open>
  What the parser raises with \<open>ParameterError\<close>, by message. \<open>FactoryMessage\<close> is a
  \<open>ParameterError\<close> raised inside \<open>FileType\<close> or \<open>DirType\<close>.
\<close>

datatype message =
    NeedsValues nat
  | NotInChoices
  | IsNotType
  | NotValidValue
  | FactoryMessage
  | NotValidShortCommand
  | DuplicatedShortCommand
  | NotValidLongCommand
  | DuplicatedLongCommand
  | DuplicatedDest
  | NotValidType
  | NotValidAction
  | DefaultIsNotType
  | ConstIsNotType
  | ChoicesNotIterable
  | DefaultNotSetForOptional
  | ConstNotSetForOptional
  | NotValidNargs
  | NeedsTwoParameters
  | NotExists string
  | MustBeStrOrList
  | MustBeStr
  | RestrictionToItself string
  | DependencyAndIncompatibility string string
  | NotValidParameter string
  | NotValidParameterFormat string
  | MissingRequired "string list"
  | IncompatibleParameters "string list"
  | MissingDependency "string list"
  | PassedMoreThanOnce
  | NeedAtLeastOneValue

text \<open>
  How a call of the parser ends when it does not return: a \<open>ParameterError\<close> (caught,
  reported by \<open>_error\<close>, exit status 2), another exception (not caught by the module),
  or the exit of \<open>-h\<close> and \<open>-V\<close> (status 0).
\<close>

datatype abort = Error message | Crash exn | HelpExit | VersionExit

text \<open>
  The platform: what a type callable does where this theory does not say it (float
  parsing, opening files, testing directories, conversions of opaque objects).
\<close>

type_synonym env = "ptype \<Rightarrow> scalar \<Rightarrow> exn + scalar"

definition is_space :: "char \<Rightarrow> bool" where
  "is_space c = (c \<in> set [CHR 0x20, CHR 0x09, CHR 0x0A, CHR 0x0B, CHR 0x0C, CHR 0x0D])"

definition is_digit :: "char \<Rightarrow> bool" where
  "is_digit c = ((48::nat) \<le> of_char c \<and> (of_char c :: nat) \<le> 57)"

definition strip :: "string \<Rightarrow> string" where
  "strip s = rev (dropWhile is_space (rev (dropWhile is_space s)))"

definition digits_value :: "string \<Rightarrow> nat" where
  "digits_value ds = foldl (\<lambda>a c. 10 * a + (of_char c - 48)) 0 ds"

text \<open>
  \<open>int(s)\<close> of a \<open>str\<close> in base 10: whitespace around, an optional sign, then decimal
  digits, at least one. \<open>None\<close> is the \<open>ValueError\<close>.
\<close>

definition py_int :: "string \<Rightarrow> int option" where
  "py_int s =
     (let t = strip s;
          neg = (t \<noteq> [] \<and> hd t = CHR ''-'');
          ds = (if t \<noteq> [] \<and> (hd t = CHR ''-'' \<or> hd t = CHR ''+'') then tl t else t)
      in if ds \<noteq> [] \<and> list_all is_digit ds
         then Some (if neg then - int (digits_value ds) else int (digits_value ds))
         else None)"

fun digits :: "nat \<Rightarrow> string" where
  "digits n = (if n < 10 then [char_of (48 + n)] else digits (n div 10) @ [char_of (48 + n mod 10)])"

definition str_of_int :: "int \<Rightarrow> string" where
  "str_of_int i = (if i < 0 then CHR ''-'' # digits (nat (- i)) else digits (nat i))"

definition SUPPRESS :: string where
  "SUPPRESS = ''==SUPPRESS==''"

text \<open>\<open>ptype(value)\<close>: the value returned, or the exception raised.\<close>

fun py_call :: "env \<Rightarrow> ptype \<Rightarrow> scalar \<Rightarrow> exn + scalar" where
  "py_call E TStr (PyStr s) = Inr (PyStr s)"
| "py_call E TStr Suppress = Inr Suppress"
| "py_call E TStr (PyBool b) = Inr (PyStr (if b then ''True'' else ''False''))"
| "py_call E TStr (PyInt i) = Inr (PyStr (str_of_int i))"
| "py_call E TStr PyNone = Inr (PyStr ''None'')"
| "py_call E TInt (PyStr s) = (case py_int s of Some i \<Rightarrow> Inr (PyInt i) | None \<Rightarrow> Inl ValueError)"
| "py_call E TInt Suppress = Inl ValueError"
| "py_call E TInt (PyBool b) = Inr (PyInt (if b then 1 else 0))"
| "py_call E TInt (PyInt i) = Inr (PyInt i)"
| "py_call E TInt PyNone = Inl TypeError"
| "py_call E TBool (PyStr s) = Inr (PyBool (s \<noteq> []))"
| "py_call E TBool Suppress = Inr (PyBool True)"
| "py_call E TBool (PyBool b) = Inr (PyBool b)"
| "py_call E TBool (PyInt i) = Inr (PyBool (i \<noteq> 0))"
| "py_call E TBool PyNone = Inr (PyBool False)"
| "py_call E t v = E t v"

text \<open>\<open>_check_type\<close>: only \<open>ValueError\<close> and \<open>IOError\<close> are caught.\<close>

definition check_type :: "env \<Rightarrow> ptype \<Rightarrow> scalar \<Rightarrow> exn + bool" where
  "check_type E t v =
     (case py_call E t v of
        Inr _ \<Rightarrow> Inr True
      | Inl ValueError \<Rightarrow> Inr False
      | Inl IOError \<Rightarrow> Inr False
      | Inl e \<Rightarrow> Inl e)"

text \<open>
  \<open>==\<close> on scalars, as \<open>value in choices\<close> uses it: \<open>True == 1\<close>, and \<open>SUPPRESS\<close> equals
  the string it is. Opaque objects are compared by their name here.
\<close>

fun norm :: "scalar \<Rightarrow> scalar" where
  "norm (PyBool b) = PyInt (if b then 1 else 0)"
| "norm Suppress = PyStr SUPPRESS"
| "norm v = v"

definition py_eq :: "scalar \<Rightarrow> scalar \<Rightarrow> bool" where
  "py_eq a b = (norm a = norm b)"

text \<open>\<open>_check_choices\<close>\<close>

definition check_choices :: "scalar list option \<Rightarrow> scalar \<Rightarrow> bool" where
  "check_choices choices v =
     (case choices of None \<Rightarrow> True | Some cs \<Rightarrow> list_ex (py_eq v) cs)"

text \<open>How an exception of a type callable leaves the parser.\<close>

definition raised :: "exn \<Rightarrow> abort" where
  "raised e = (if e = FactoryError then Error FactoryMessage else Crash e)"

section \<open>Parameters\<close>

datatype nargs = Fixed nat | OneOrMore | ZeroOrMore | OptionalOne

text \<open>
  The fields of \<open>_Parameter\<close>, each with the prefix \<open>p_\<close>.
\<close>

record parameter =
  p_name :: string
  p_long_name :: "string option"
  p_dest :: string
  p_required :: bool
  p_section :: string
  p_type :: ptype
  p_action :: string
  p_default :: scalar
  p_const :: scalar
  p_choices :: "scalar list option"
  p_default_nargs :: bool
  p_nargs :: nargs
  p_help :: string

text \<open>The keyword arguments of \<open>add_parameter\<close>, as the caller passes them.\<close>

datatype nargs_arg = NInt int | NStr string | NOther

datatype choices_arg = Iterable "scalar list" | NotIterable

record kwargs =
  kw_dest :: "string option"
  kw_type :: "ptype option"
  kw_action :: string
  kw_nargs :: "nargs_arg option"
  kw_default :: scalar
  kw_const :: scalar
  kw_required :: bool
  kw_choices :: "choices_arg option"
  kw_section :: "string option"
  kw_help :: "string option"

text \<open>The keyword arguments at their defaults.\<close>

definition no_kwargs :: kwargs where
  "no_kwargs = \<lparr> kw_dest = None, kw_type = None, kw_action = ''store'', kw_nargs = None,
     kw_default = PyNone, kw_const = PyNone, kw_required = False, kw_choices = None,
     kw_section = None, kw_help = None \<rparr>"

text \<open>\<open>[self.type(i) for i in choices]\<close>: the first exception ends the comprehension.\<close>

fun convert_all :: "env \<Rightarrow> ptype \<Rightarrow> scalar list \<Rightarrow> exn + scalar list" where
  "convert_all E t [] = Inr []"
| "convert_all E t (v # vs) =
     (case py_call E t v of
        Inl e \<Rightarrow> Inl e
      | Inr x \<Rightarrow> (case convert_all E t vs of Inl e \<Rightarrow> Inl e | Inr xs \<Rightarrow> Inr (x # xs)))"

text \<open>
  The conversion of \<open>default\<close> and of \<open>const\<close> in \<open>_Parameter.__init__\<close>: \<open>_check_type\<close>,
  then the call itself.
\<close>

definition convert_field :: "env \<Rightarrow> ptype \<Rightarrow> message \<Rightarrow> scalar \<Rightarrow> abort + scalar" where
  "convert_field E t msg v =
     (case check_type E t v of
        Inl e \<Rightarrow> Inl (raised e)
      | Inr False \<Rightarrow> Inl (Error msg)
      | Inr True \<Rightarrow> (case py_call E t v of Inl e \<Rightarrow> Inl (raised e) | Inr x \<Rightarrow> Inr x))"

text \<open>The check of \<open>nargs\<close> at the end of \<open>_Parameter.__init__\<close>.\<close>

definition init_nargs :: "string \<Rightarrow> scalar \<Rightarrow> scalar \<Rightarrow> nargs_arg option \<Rightarrow> abort + nargs" where
  "init_nargs act dflt cnst narg =
     (let n = (case narg of None \<Rightarrow> NInt 1 | Some a \<Rightarrow> a) in
      if act = ''store_true'' \<or> act = ''store_false'' then Inr (Fixed 0)
      else (case n of
              NInt i \<Rightarrow> if 0 \<le> i then Inr (Fixed (nat i)) else Inl (Error NotValidNargs)
            | NStr s \<Rightarrow>
                if s = ''?'' then
                  (if dflt = PyNone then Inl (Error DefaultNotSetForOptional)
                   else if cnst = PyNone then Inl (Error ConstNotSetForOptional)
                   else Inr OptionalOne)
                else if s = ''+'' then Inr OneOrMore
                else if s = ''*'' then Inr ZeroOrMore
                else Inl (Error NotValidNargs)
            | NOther \<Rightarrow> Inl (Error NotValidNargs)))"

text \<open>
  \<open>_Parameter.__init__\<close>, in the order of its checks. The last field is \<open>str(help)\<close>, for
  a \<open>help\<close> that is a string or \<open>None\<close>.
\<close>

definition new_parameter ::
  "env \<Rightarrow> string \<Rightarrow> string option \<Rightarrow> string \<Rightarrow> kwargs \<Rightarrow> abort + parameter" where
  "new_parameter E nm long dst kw =
     (let sect = (if kw_required kw then ''Required''
                  else (case kw_section kw of None \<Rightarrow> ''Others'' | Some s \<Rightarrow> s));
          t = (case kw_type kw of None \<Rightarrow> TStr | Some t \<Rightarrow> t)
      in
      if t = TOther then Inl (Error NotValidType)
      else if kw_action kw \<notin> set [''store'', ''store_true'', ''store_false'', ''help'', ''version'']
      then Inl (Error NotValidAction)
      else
        let d0 = (if kw_action kw = ''store_true'' then PyBool False
                  else if kw_action kw = ''store_false'' then PyBool True
                  else kw_default kw)
        in
        case (if d0 = PyNone \<or> py_eq d0 Suppress then Inr d0
              else convert_field E t DefaultIsNotType d0) of
          Inl a \<Rightarrow> Inl a
        | Inr d \<Rightarrow>
           (case (if kw_const kw = PyNone then Inr PyNone
                  else convert_field E t ConstIsNotType (kw_const kw)) of
              Inl a \<Rightarrow> Inl a
            | Inr c \<Rightarrow>
               (case (case kw_choices kw of
                        None \<Rightarrow> Inr None
                      | Some NotIterable \<Rightarrow> Inl (Error ChoicesNotIterable)
                      | Some (Iterable cs) \<Rightarrow>
                          (case convert_all E t cs of
                             Inl e \<Rightarrow> Inl (raised e)
                           | Inr xs \<Rightarrow> Inr (Some xs))) of
                  Inl a \<Rightarrow> Inl a
                | Inr ch \<Rightarrow>
                   (case init_nargs (kw_action kw) d c (kw_nargs kw) of
                      Inl a \<Rightarrow> Inl a
                    | Inr n \<Rightarrow>
                        Inr \<lparr> p_name = nm, p_long_name = long, p_dest = dst,
                              p_required = kw_required kw, p_section = sect, p_type = t,
                              p_action = kw_action kw, p_default = d, p_const = c,
                              p_choices = ch, p_default_nargs = (kw_nargs kw = None),
                              p_nargs = n,
                              p_help = (case kw_help kw of None \<Rightarrow> ''None'' | Some h \<Rightarrow> h) \<rparr>))))"

section \<open>The parser: registration\<close>

text \<open>
  The state of a \<open>ParameterParser\<close> that parsing, the constraint methods and the help
  read and write. The two dictionaries are association lists; the order in which Python
  enumerates a dictionary is not fixed by the language, and only decides which of
  several violations is reported.
\<close>

record parser =
  parameters :: "parameter list"
  user_name_parameters :: "string list"
  dependency_params_restrictions :: "(string \<times> string list) list"
  incompatible_params_restrictions :: "(string \<times> string list) list"
  add_help :: bool
  version :: "string option"

text \<open>\<open>_valid_parameter\<close>: the first parameter with that name, \<open>None\<close> for \<open>False\<close>.\<close>

definition valid_parameter :: "parser \<Rightarrow> string \<Rightarrow> string \<Rightarrow> parameter option" where
  "valid_parameter P type_param param =
     (if type_param = ''short'' then find (\<lambda>p. p_name p = param) (parameters P)
      else find (\<lambda>p. p_long_name p = Some param) (parameters P))"

definition add_parameter ::
  "env \<Rightarrow> parser \<Rightarrow> string option \<Rightarrow> string option \<Rightarrow> kwargs \<Rightarrow> abort + parser" where
  "add_parameter E P short_command long_command kw =
     (case short_command of
        None \<Rightarrow> Inl (Error NotValidShortCommand)
      | Some sc \<Rightarrow>
          if \<not> re_match short_command_re sc then Inl (Error NotValidShortCommand)
          else if list_ex (\<lambda>p. p_name p = replace_dash sc) (parameters P)
          then Inl (Error DuplicatedShortCommand)
          else
            (case (case long_command of
                     None \<Rightarrow> Inr None
                   | Some lc \<Rightarrow>
                       if \<not> re_match long_command_re lc then Inl (Error NotValidLongCommand)
                       else if list_ex (\<lambda>p. p_long_name p = Some (replace_dashdash lc)) (parameters P)
                       then Inl (Error DuplicatedLongCommand)
                       else Inr (Some (replace_dashdash lc))) of
               Inl a \<Rightarrow> Inl a
             | Inr long \<Rightarrow>
                (let dst = (case kw_dest kw of
                              Some d \<Rightarrow> d
                            | None \<Rightarrow> (case long of Some l \<Rightarrow> l | None \<Rightarrow> replace_dash sc))
                 in if list_ex (\<lambda>p. p_dest p = dst) (parameters P) then Inl (Error DuplicatedDest)
                    else (case new_parameter E (replace_dash sc) long dst kw of
                            Inl a \<Rightarrow> Inl a
                          | Inr np \<Rightarrow> Inr (P\<lparr>parameters := parameters P @ [np]\<rparr>)))))"

text \<open>\<open>ParameterParser.__init__\<close>, for its arguments \<open>add_help\<close> and \<open>version\<close>.\<close>

definition new_parser :: "env \<Rightarrow> bool \<Rightarrow> string option \<Rightarrow> abort + parser" where
  "new_parser E h v =
     (case (if h
            then add_parameter E
                   \<lparr> parameters = [], user_name_parameters = [],
                     dependency_params_restrictions = [], incompatible_params_restrictions = [],
                     add_help = h, version = v \<rparr>
                   (Some ''-h'') (Some ''--help'')
                   (no_kwargs\<lparr>kw_action := ''help'', kw_default := Suppress,
                      kw_help := Some ''Show this help and exit''\<rparr>)
            else Inr \<lparr> parameters = [], user_name_parameters = [],
                       dependency_params_restrictions = [], incompatible_params_restrictions = [],
                       add_help = h, version = v \<rparr>) of
        Inl a \<Rightarrow> Inl a
      | Inr P \<Rightarrow>
          if v \<noteq> None
          then add_parameter E P (Some ''-V'') (Some ''--version'')
                 (no_kwargs\<lparr>kw_action := ''version'', kw_default := Suppress,
                    kw_help := Some ''Show the version and exit''\<rparr>)
          else Inr P)"

section \<open>The parser: dependency and incompatibility declarations\<close>

text \<open>An argument of \<open>dependency_params\<close> or \<open>incompatible_params\<close>.\<close>

datatype arg = AStr string | AList "string list" | AOther

text \<open>The check of the last argument; it returns the list \<open>restriction\<close>.\<close>

definition check_restriction :: "parser \<Rightarrow> arg \<Rightarrow> abort + string list" where
  "check_restriction P a =
     (case a of
        AStr s \<Rightarrow>
          if valid_parameter P ''short'' (replace_dash s) = None
          then Inl (Error (NotExists (replace_dash s))) else Inr [s]
      | AList rs \<Rightarrow>
          (case find (\<lambda>r. valid_parameter P ''short'' (replace_dash r) = None) rs of
             Some r \<Rightarrow> Inl (Error (NotExists (replace_dash r)))
           | None \<Rightarrow> Inr rs)
      | AOther \<Rightarrow> Inl (Error MustBeStrOrList))"

text \<open>
  \<open>for r in restriction: d[p].append(r)\<close>, from position \<open>i\<close> of the list iterated.
  A key that this same call has just created holds the list object \<open>restriction\<close> itself
  (\<open>d[p] = restriction\<close>): then the loop appends to the list it iterates (\<open>aliased\<close>) and,
  when that list is not empty, never ends. \<open>None\<close> is not returning.
\<close>

partial_function (option) extend :: "bool \<Rightarrow> string list \<Rightarrow> nat \<Rightarrow> string list \<Rightarrow> string list option" where
  "extend aliased restriction i target =
     (if i < length (if aliased then target else restriction)
      then extend aliased restriction (Suc i)
             (target @ [(if aliased then target else restriction) ! i])
      else Some target)"

text \<open>
  The loop over the first arguments, the same text in both methods with the two
  dictionaries exchanged: \<open>own\<close> is the dictionary the method extends, \<open>other\<close> the one
  it checks against; \<open>fresh\<close> are the keys created by this call.
\<close>

fun declare_loop ::
  "parser \<Rightarrow> (string \<times> string list) list \<Rightarrow> string list \<Rightarrow> string list \<Rightarrow>
   (string \<times> string list) list \<Rightarrow> arg list \<Rightarrow> (abort + (string \<times> string list) list) option" where
  "declare_loop P other restriction fresh own [] = Some (Inr own)"
| "declare_loop P other restriction fresh own (AStr p # as) =
     (if valid_parameter P ''short'' (replace_dash p) = None
      then Some (Inl (Error (NotExists (replace_dash p))))
      else if p \<in> set restriction then Some (Inl (Error (RestrictionToItself p)))
      else
        (case (case map_of other p of
                 None \<Rightarrow> None
               | Some rs \<Rightarrow> find (\<lambda>r. r \<in> set rs) restriction) of
           Some r \<Rightarrow> Some (Inl (Error (DependencyAndIncompatibility p r)))
         | None \<Rightarrow>
            (case map_of own p of
               Some target \<Rightarrow>
                 (case extend (p \<in> set fresh) restriction 0 target of
                    None \<Rightarrow> None
                  | Some target' \<Rightarrow>
                      declare_loop P other restriction fresh (AList.update p target' own) as)
             | None \<Rightarrow>
                 declare_loop P other restriction (p # fresh)
                   (AList.update p restriction own) as)))"
| "declare_loop P other restriction fresh own (a # as) = Some (Inl (Error MustBeStr))"

text \<open>
  The body of both methods. The last loop replaces every list by \<open>list(set(value))\<close>:
  its elements without repetition, in an order Python does not fix.
\<close>

definition restrict_params ::
  "parser \<Rightarrow> (string \<times> string list) list \<Rightarrow> (string \<times> string list) list \<Rightarrow> arg list \<Rightarrow>
   (abort + (string \<times> string list) list) option" where
  "restrict_params P own other args =
     (if length args < 2 then Some (Inl (Error NeedsTwoParameters))
      else
        (case check_restriction P (last args) of
           Inl a \<Rightarrow> Some (Inl a)
         | Inr restriction \<Rightarrow>
            (case declare_loop P other restriction [] own (butlast args) of
               None \<Rightarrow> None
             | Some (Inl a) \<Rightarrow> Some (Inl a)
             | Some (Inr own') \<Rightarrow> Some (Inr (map (\<lambda>kv. (fst kv, remdups (snd kv))) own')))))"

definition dependency_params :: "parser \<Rightarrow> arg list \<Rightarrow> (abort + parser) option" where
  "dependency_params P args =
     (case restrict_params P (dependency_params_restrictions P)
             (incompatible_params_restrictions P) args of
        None \<Rightarrow> None
      | Some (Inl a) \<Rightarrow> Some (Inl a)
      | Some (Inr d) \<Rightarrow> Some (Inr (P\<lparr>dependency_params_restrictions := d\<rparr>)))"

definition incompatible_params :: "parser \<Rightarrow> arg list \<Rightarrow> (abort + parser) option" where
  "incompatible_params P args =
     (case restrict_params P (incompatible_params_restrictions P)
             (dependency_params_restrictions P) args of
        None \<Rightarrow> None
      | Some (Inl a) \<Rightarrow> Some (Inl a)
      | Some (Inr d) \<Rightarrow> Some (Inr (P\<lparr>incompatible_params_restrictions := d\<rparr>)))"

section \<open>The parser: consuming values\<close>

text \<open>
  A \<open>Namespace\<close> is its attribute dictionary. Iterating over it gives the attribute
  names that do not start with an underscore and are not \<open>next\<close>; \<open>listed\<close> is
  membership in that enumeration, the only way the parser uses it.
\<close>

type_synonym namespace = "string \<rightharpoonup> pyval"

definition startswith_dash :: "string \<Rightarrow> bool" where
  "startswith_dash s = (s \<noteq> [] \<and> hd s = CHR ''-'')"

definition listed :: "namespace \<Rightarrow> string \<Rightarrow> bool" where
  "listed ns d = (ns d \<noteq> None \<and> \<not> (d \<noteq> [] \<and> hd d = CHR ''_'') \<and> d \<noteq> ''next'')"

text \<open>
  \<open>_check_type(int, a) or not a.startswith('-')\<close> for a token \<open>a\<close> of the command line,
  as \<open>_store_action\<close> evaluates it.
\<close>

definition is_value :: "string \<Rightarrow> bool" where
  "is_value a = (py_int a \<noteq> None \<or> \<not> startswith_dash a)"

text \<open>
  The same test in \<open>_parse_list\<close>, where the value can also be the parameter's \<open>const\<close>:
  an object that is not a string has no \<open>startswith\<close>.
\<close>

definition value_test :: "env \<Rightarrow> scalar \<Rightarrow> abort + bool" where
  "value_test E v =
     (case check_type E TInt v of
        Inl e \<Rightarrow> Inl (raised e)
      | Inr True \<Rightarrow> Inr True
      | Inr False \<Rightarrow>
          (case v of
             PyStr s \<Rightarrow> Inr (\<not> startswith_dash s)
           | Suppress \<Rightarrow> Inr (\<not> startswith_dash SUPPRESS)
           | _ \<Rightarrow> Inl (Crash AttributeError)))"

text \<open>The body of the loop of \<open>_parse_list\<close>, for one value.\<close>

definition parse_value :: "env \<Rightarrow> parameter \<Rightarrow> scalar \<Rightarrow> abort + scalar" where
  "parse_value E p v =
     (case value_test E v of
        Inl a \<Rightarrow> Inl a
      | Inr False \<Rightarrow> Inl (Error NotValidValue)
      | Inr True \<Rightarrow>
          (case check_type E (p_type p) v of
             Inl e \<Rightarrow> Inl (raised e)
           | Inr False \<Rightarrow> Inl (Error IsNotType)
           | Inr True \<Rightarrow>
               (case py_call E (p_type p) v of
                  Inl e \<Rightarrow> Inl (raised e)
                | Inr x \<Rightarrow>
                    if check_choices (p_choices p) x then Inr x else Inl (Error NotInChoices))))"

fun parse_values :: "env \<Rightarrow> parameter \<Rightarrow> scalar list \<Rightarrow> abort + scalar list" where
  "parse_values E p [] = Inr []"
| "parse_values E p (v # vs) =
     (case parse_value E p v of
        Inl a \<Rightarrow> Inl a
      | Inr x \<Rightarrow> (case parse_values E p vs of Inl a \<Rightarrow> Inl a | Inr xs \<Rightarrow> Inr (x # xs)))"

text \<open>\<open>_parse_list\<close>\<close>

definition parse_list :: "env \<Rightarrow> parameter \<Rightarrow> scalar list \<Rightarrow> abort + scalar list" where
  "parse_list E p slist =
     (case p_nargs p of
        Fixed n \<Rightarrow>
          if n > length slist then Inl (Error (NeedsValues n)) else parse_values E p slist
      | _ \<Rightarrow> parse_values E p slist)"

text \<open>
  The end of the branch of \<open>_store_action\<close> for an arity that is not a number:
  \<open>list_values[0]\<close> when \<open>default_nargs\<close>, the list otherwise.
\<close>

definition store_collected ::
  "parameter \<Rightarrow> namespace \<Rightarrow> scalar list \<Rightarrow> nat \<Rightarrow> abort + (namespace \<times> nat)" where
  "store_collected p ns list_values i =
     (if p_default_nargs p
      then (case list_values of
              [] \<Rightarrow> Inl (Crash IndexError)
            | v # _ \<Rightarrow> Inr (ns(p_dest p \<mapsto> Scalar v), i))
      else Inr (ns(p_dest p \<mapsto> PyList list_values), i))"

text \<open>
  \<open>_store_action\<close>: the namespace after the \<open>setattr\<close> and the index returned. The tokens
  after position \<open>i\<close> are \<open>drop (i + 1) args\<close>.
\<close>

definition store_action ::
  "env \<Rightarrow> parameter \<Rightarrow> namespace \<Rightarrow> nat \<Rightarrow> string list \<Rightarrow> abort + (namespace \<times> nat)" where
  "store_action E p ns i args =
     (if listed ns (p_dest p) then Inl (Error PassedMoreThanOnce)
      else if p_action p = ''store_true'' then Inr (ns(p_dest p \<mapsto> Scalar (PyBool True)), i)
      else if p_action p = ''store_false'' then Inr (ns(p_dest p \<mapsto> Scalar (PyBool False)), i)
      else
        (case p_nargs p of
           Fixed n \<Rightarrow>
             (case parse_list E p (map PyStr (take n (drop (i + 1) args))) of
                Inl a \<Rightarrow> Inl a
              | Inr list_values \<Rightarrow>
                  if length list_values = 1
                  then Inr (ns(p_dest p \<mapsto> Scalar (hd list_values)), i + n)
                  else Inr (ns(p_dest p \<mapsto> PyList list_values), i + n))
         | OptionalOne \<Rightarrow>
             if length args \<noteq> i + 1 then
               (if length args \<le> i then Inl (Crash IndexError)
                else if is_value (args ! (i + 1)) then
                  (case parse_list E p [PyStr (args ! (i + 1))] of
                     Inl a \<Rightarrow> Inl a
                   | Inr list_values \<Rightarrow> store_collected p ns list_values (i + 1))
                else
                  (case parse_list E p [p_const p] of
                     Inl a \<Rightarrow> Inl a
                   | Inr list_values \<Rightarrow> store_collected p ns list_values i))
             else
               (case parse_list E p [p_const p] of
                  Inl a \<Rightarrow> Inl a
                | Inr list_values \<Rightarrow> store_collected p ns list_values i)
         | _ \<Rightarrow>
             (case parse_list E p (map PyStr (takeWhile is_value (drop (i + 1) args))) of
                Inl a \<Rightarrow> Inl a
              | Inr list_values \<Rightarrow>
                  if p_nargs p = OneOrMore \<and> list_values = []
                  then Inl (Error NeedAtLeastOneValue)
                  else store_collected p ns list_values
                         (i + length (takeWhile is_value (drop (i + 1) args))))))"

text \<open>
  \<open>_print_help\<close>, for how the call ends; the text it writes is not modelled.
  \<open>_info_subsection_help\<close> takes the parameter named \<open>V\<close> out of the list when the parser
  has a version, and the one named \<open>h\<close> when \<open>add_help\<close> is set, and concatenates the long
  name of each; \<open>_subsections_help\<close> then concatenates \<open>p.long_name\<close> for every parameter
  left whose help is not \<open>SUPPRESS\<close>. A long name that is \<open>None\<close> makes the concatenation
  raise \<open>TypeError\<close>; otherwise the help is written and the process exits.
\<close>

definition print_help :: "parser \<Rightarrow> abort" where
  "print_help P =
     (case (if version P \<noteq> None
            then (case find (\<lambda>p. p_name p = ''V'') (parameters P) of
                    None \<Rightarrow> Inl (Crash UnboundLocalError)
                  | Some vp \<Rightarrow>
                      if p_long_name vp = None then Inl (Crash TypeError)
                      else Inr (remove1 vp (parameters P)))
            else Inr (parameters P)) of
        Inl a \<Rightarrow> a
      | Inr ps \<Rightarrow>
          (case (if add_help P
                 then (case find (\<lambda>p. p_name p = ''h'') ps of
                         None \<Rightarrow> Inl (Crash UnboundLocalError)
                       | Some hp \<Rightarrow>
                           if p_long_name hp = None then Inl (Crash TypeError)
                           else Inr (remove1 hp ps))
                 else Inr ps) of
             Inl a \<Rightarrow> a
           | Inr qs \<Rightarrow>
               if list_ex (\<lambda>p. p_help p \<noteq> SUPPRESS \<and> p_long_name p = None) qs
               then Crash TypeError else HelpExit))"

text \<open>\<open>_do_action\<close>: help and version print and leave the process.\<close>

definition do_action ::
  "env \<Rightarrow> parser \<Rightarrow> parameter \<Rightarrow> namespace \<Rightarrow> nat \<Rightarrow> string list \<Rightarrow>
   abort + (namespace \<times> nat)" where
  "do_action E P p ns i args =
     (if p_action p = ''help'' then Inl (print_help P)
      else if p_action p = ''version'' then Inl VersionExit
      else store_action E p ns i args)"

section \<open>The parser: the scan and the final checks\<close>

text \<open>
  The loop over the letters of a short bundle. Each letter found is appended to
  \<open>self.user_name_parameters\<close> before its action runs.
\<close>

fun bundle_loop ::
  "env \<Rightarrow> parser \<Rightarrow> namespace \<Rightarrow> nat \<Rightarrow> string list \<Rightarrow> string \<Rightarrow>
   abort + (parser \<times> namespace \<times> nat)" where
  "bundle_loop E P ns i args [] = Inr (P, ns, i)"
| "bundle_loop E P ns i args (c # cs) =
     (case valid_parameter P ''short'' [c] of
        None \<Rightarrow> Inl (Error (NotValidParameter [c]))
      | Some vp \<Rightarrow>
          (case do_action E (P\<lparr>user_name_parameters := user_name_parameters P @ [p_name vp]\<rparr>)
                  vp ns i args of
             Inl a \<Rightarrow> Inl a
           | Inr (ns', i') \<Rightarrow>
               bundle_loop E (P\<lparr>user_name_parameters := user_name_parameters P @ [p_name vp]\<rparr>)
                 ns' i' args cs))"

text \<open>One token of the main loop of \<open>parse_params\<close>, up to the \<open>index += 1\<close>.\<close>

definition scan_token ::
  "env \<Rightarrow> parser \<Rightarrow> namespace \<Rightarrow> nat \<Rightarrow> string list \<Rightarrow> abort + (parser \<times> namespace \<times> nat)" where
  "scan_token E P ns index args =
     (if re_match short_bundle_re (args ! index)
      then bundle_loop E P ns index args (replace_dash (args ! index))
      else if re_match long_command_re (args ! index) then
        (case valid_parameter P ''long'' (replace_dashdash (args ! index)) of
           None \<Rightarrow> Inl (Error (NotValidParameter (replace_dashdash (args ! index))))
         | Some vp \<Rightarrow>
             (case do_action E (P\<lparr>user_name_parameters := user_name_parameters P @ [p_name vp]\<rparr>)
                     vp ns index args of
                Inl a \<Rightarrow> Inl a
              | Inr (ns', i') \<Rightarrow>
                  Inr (P\<lparr>user_name_parameters := user_name_parameters P @ [p_name vp]\<rparr>, ns', i')))
      else Inl (Error (NotValidParameterFormat (args ! index))))"

text \<open>The main loop: \<open>while index < args_len\<close>.\<close>

function scan ::
  "env \<Rightarrow> parser \<Rightarrow> namespace \<Rightarrow> nat \<Rightarrow> string list \<Rightarrow> abort + (parser \<times> namespace)" where
  "scan E P ns index args =
     (if index < length args then
        (case scan_token E P ns index args of
           Inl a \<Rightarrow> Inl a
         | Inr (P', ns', index') \<Rightarrow> scan E P' ns' (index' + 1) args)
      else Inr (P, ns))"
  by pat_completeness auto

text \<open>\<open>_check_required_param\<close>\<close>

definition check_required_param :: "parser \<Rightarrow> namespace \<Rightarrow> parameter list" where
  "check_required_param P ns =
     filter (\<lambda>rp. \<not> listed ns (p_dest rp)) (filter (\<lambda>p. p_required p) (parameters P))"

text \<open>The two loops over the restrictions; \<open>Some\<close> is the error raised.\<close>

fun check_incompatible :: "string list \<Rightarrow> (string \<times> string list) list \<Rightarrow> abort option" where
  "check_incompatible names [] = None"
| "check_incompatible names ((v, restrictions) # rest) =
     (if replace_dash v \<in> set names \<and>
         filter (\<lambda>i. replace_dash i \<in> set names) restrictions \<noteq> []
      then Some (Error (IncompatibleParameters
                  (filter (\<lambda>i. replace_dash i \<in> set names) restrictions)))
      else check_incompatible names rest)"

fun check_dependency :: "string list \<Rightarrow> (string \<times> string list) list \<Rightarrow> abort option" where
  "check_dependency names [] = None"
| "check_dependency names ((v, restrictions) # rest) =
     (if replace_dash v \<in> set names \<and>
         filter (\<lambda>i. replace_dash i \<notin> set names) restrictions \<noteq> []
      then Some (Error (MissingDependency
                  (filter (\<lambda>i. replace_dash i \<notin> set names) restrictions)))
      else check_dependency names rest)"

text \<open>
  \<open>_complete_namespace\<close>: the namespace after the loop, and the list of the attributes
  the loop has set, one entry for each \<open>setattr\<close> it ran.
\<close>

fun complete_namespace :: "parameter list \<Rightarrow> namespace \<Rightarrow> namespace \<times> string list" where
  "complete_namespace [] ns = (ns, [])"
| "complete_namespace (p # ps) ns =
     (if p_default p \<noteq> Suppress \<and> ns (p_dest p) = None
      then (fst (complete_namespace ps (ns(p_dest p \<mapsto> Scalar (p_default p)))),
            p_dest p # snd (complete_namespace ps (ns(p_dest p \<mapsto> Scalar (p_default p)))))
      else complete_namespace ps ns)"

text \<open>
  \<open>parse_params\<close>, for a list of tokens \<open>args\<close> and the optional \<open>namespace\<close>. It returns the
  namespace, and the parser as the call leaves it.
\<close>

definition parse_params ::
  "env \<Rightarrow> parser \<Rightarrow> string list \<Rightarrow> namespace option \<Rightarrow> abort + (parser \<times> namespace)" where
  "parse_params E P args namespace =
     (case scan E P (case namespace of None \<Rightarrow> Map.empty | Some ns \<Rightarrow> ns) 0 args of
        Inl a \<Rightarrow> Inl a
      | Inr (P', ns) \<Rightarrow>
          if check_required_param P' ns \<noteq> []
          then Inl (Error (MissingRequired (map p_dest (check_required_param P' ns))))
          else
            (case check_incompatible (user_name_parameters P')
                    (incompatible_params_restrictions P') of
               Some a \<Rightarrow> Inl a
             | None \<Rightarrow>
                (case check_dependency (user_name_parameters P')
                        (dependency_params_restrictions P') of
                   Some a \<Rightarrow> Inl a
                 | None \<Rightarrow> Inr (P', fst (complete_namespace (parameters P') ns)))))"

section \<open>Examples\<close>

text \<open>A platform on which every conversion left to it fails, for concrete runs.\<close>

definition no_platform :: env where
  "no_platform t v = Inl TypeError"

text \<open>\<open>ParameterParser(add_help=False)\<close>, before any registration.\<close>

definition empty_parser :: parser where
  "empty_parser = \<lparr> parameters = [], user_name_parameters = [],
     dependency_params_restrictions = [], incompatible_params_restrictions = [],
     add_help = False, version = None \<rparr>"

text \<open>Sequencing of two calls, the second made when the first has returned.\<close>

definition and_then :: "'e + 'a \<Rightarrow> ('a \<Rightarrow> 'e + 'b) \<Rightarrow> 'e + 'b" where
  "and_then x f = (case x of Inl e \<Rightarrow> Inl e | Inr a \<Rightarrow> f a)"

text \<open>
  Reading one attribute of the namespace that \<open>parse_params\<close> returns (\<open>None\<close> when the
  namespace has no such attribute); a call that does not return keeps how it ended.
\<close>

definition attribute :: "string \<Rightarrow> abort + (parser \<times> namespace) \<Rightarrow> abort + pyval option" where
  "attribute d r = (case r of Inl a \<Rightarrow> Inl a | Inr (P, ns) \<Rightarrow> Inr (ns d))"

text \<open>
  The parameter that \<open>add_parameter('-a', action='store_true')\<close> builds, and the parser
  after the registration of \<open>-a\<close> and \<open>-b\<close> in this way.
\<close>

definition flag_a :: parameter where
  "flag_a = \<lparr> p_name = ''a'', p_long_name = None, p_dest = ''a'', p_required = False,
     p_section = ''Others'', p_type = TStr, p_action = ''store_true'',
     p_default = PyStr ''False'', p_const = PyNone, p_choices = None,
     p_default_nargs = True, p_nargs = Fixed 0, p_help = ''None'' \<rparr>"

definition flags_ab :: parser where
  "flags_ab = empty_parser\<lparr>parameters := [flag_a, flag_a\<lparr>p_name := ''b'', p_dest := ''b''\<rparr>]\<rparr>"

text \<open>The list that the last argument of a declaration stands for.\<close>

definition restriction_of :: "arg \<Rightarrow> string list" where
  "restriction_of a = (case a of AStr s \<Rightarrow> [s] | AList rs \<Rightarrow> rs | AOther \<Rightarrow> [])"

text \<open>
  The parameter that \<open>add_parameter('-' + nm, type=int, nargs=...)\<close> builds: \<open>unspecified\<close>
  when the caller gives no \<open>nargs\<close>.
\<close>

definition int_param :: "string \<Rightarrow> bool \<Rightarrow> nargs \<Rightarrow> parameter" where
  "int_param nm unspecified n = \<lparr> p_name = nm, p_long_name = None, p_dest = nm,
     p_required = False, p_section = ''Others'', p_type = TInt, p_action = ''store'',
     p_default = PyNone, p_const = PyNone, p_choices = None,
     p_default_nargs = unspecified, p_nargs = n, p_help = ''None'' \<rparr>"

text \<open>The parameter that \<open>ParameterParser.__init__\<close> registers for \<open>-h\<close>, \<open>--help\<close>.\<close>

definition help_param :: parameter where
  "help_param = \<lparr> p_name = ''h'', p_long_name = Some ''help'', p_dest = ''help'',
     p_required = False, p_section = ''Others'', p_type = TStr, p_action = ''help'',
     p_default = Suppress, p_const = PyNone, p_choices = None,
     p_default_nargs = True, p_nargs = Fixed 1, p_help = ''Show this help and exit'' \<rparr>"

text \<open>
  \<open>ParameterParser()\<close> followed by \<open>add_parameter('-n', type=int, nargs=narg)\<close>, and
  followed by \<open>add_parameter('-o', type=int, nargs='?', default=10, const=1)\<close>.
\<close>

definition parser_n :: "env \<Rightarrow> nargs_arg option \<Rightarrow> abort + parser" where
  "parser_n E narg =
     and_then (new_parser E True None)
       (\<lambda>P. add_parameter E P (Some ''-n'') None (no_kwargs\<lparr>kw_type := Some TInt, kw_nargs := narg\<rparr>))"

definition parser_o :: "env \<Rightarrow> abort + parser" where
  "parser_o E =
     and_then (new_parser E True None)
       (\<lambda>P. add_parameter E P (Some ''-o'') None
              (no_kwargs\<lparr>kw_type := Some TInt, kw_nargs := Some (NStr ''?''),
                 kw_default := PyInt 10, kw_const := PyInt 1\<rparr>))"


text \<open>The parser with \<open>-a\<close> and \<open>-b\<close> after \<open>incompatible_params('-a', '-b')\<close>.\<close>

definition exclusive_ab :: parser where
  "exclusive_ab = flags_ab\<lparr>incompatible_params_restrictions := [(''-a'', [''-b''])]\<rparr>"

section \<open>The language of a pattern\<close>

definition conc :: "string set \<Rightarrow> string set \<Rightarrow> string set" where
  "conc A B = {u @ v | u v. u \<in> A \<and> v \<in> B}"

definition star :: "string set \<Rightarrow> string set" where
  "star A = {concat ws | ws. set ws \<subseteq> A}"

fun lang :: "rexp \<Rightarrow> string set" where
  "lang Nothing = {}"
| "lang Eps = {[]}"
| "lang (Chars rs) = {[c] | c. in_class c rs}"
| "lang (Alt r s) = lang r \<union> lang s"
| "lang (Seq r s) = conc (lang r) (lang s)"
| "lang (Star r) = star (lang r)"

lemma nil_in_star: "[] \<in> star A"
proof -
  have "[] = concat []" "set [] \<subseteq> A" by simp_all
  then show ?thesis unfolding star_def by blast
qed

lemma nullable_lang: "nullable r \<longleftrightarrow> [] \<in> lang r"
  by (induction r) (auto simp: conc_def nil_in_star)

lemma star_step: "c # w \<in> star A \<longleftrightarrow> (\<exists>u v. c # u \<in> A \<and> v \<in> star A \<and> w = u @ v)"
proof
  assume "c # w \<in> star A"
  then obtain ws where ws: "c # w = concat ws" "set ws \<subseteq> A"
    unfolding star_def by blast
  then show "\<exists>u v. c # u \<in> A \<and> v \<in> star A \<and> w = u @ v"
  proof (induction ws)
    case Nil
    then show ?case by simp
  next
    case (Cons x xs)
    show ?case
    proof (cases x)
      case Nil
      with Cons show ?thesis by simp
    next
      case (Cons d u)
      with Cons.prems have "d = c" "w = u @ concat xs" "c # u \<in> A" "set xs \<subseteq> A"
        by auto
      moreover have "concat xs \<in> star A"
        unfolding star_def using \<open>set xs \<subseteq> A\<close> by blast
      ultimately show ?thesis by blast
    qed
  qed
next
  assume "\<exists>u v. c # u \<in> A \<and> v \<in> star A \<and> w = u @ v"
  then obtain u ws where "c # u \<in> A" "set ws \<subseteq> A" "w = u @ concat ws"
    unfolding star_def by blast
  then have "c # w = concat ((c # u) # ws)" "set ((c # u) # ws) \<subseteq> A"
    by simp_all
  then show "c # w \<in> star A"
    unfolding star_def by blast
qed

lemma conc_step:
  "c # w \<in> conc A B \<longleftrightarrow>
     (\<exists>u v. c # u \<in> A \<and> v \<in> B \<and> w = u @ v) \<or> ([] \<in> A \<and> c # w \<in> B)"
  unfolding conc_def by (auto simp: Cons_eq_append_conv)

lemma lang_deriv: "w \<in> lang (deriv c r) \<longleftrightarrow> c # w \<in> lang r"
proof (induction r arbitrary: w)
  case (Seq r s)
  then show ?case
    by (auto simp: conc_step nullable_lang) (auto simp: conc_def)
next
  case (Star r)
  then show ?case
    by (auto simp: star_step) (auto simp: conc_def)
qed auto

lemma matches_lang: "matches r w \<longleftrightarrow> w \<in> lang r"
  by (induction w arbitrary: r) (simp_all add: nullable_lang lang_deriv)

section \<open>Termination of the scan\<close>

lemma store_collected_index:
  "store_collected p ns vs i = Inr (ns', i') \<Longrightarrow> i' = i"
  by (auto simp: store_collected_def split: if_splits list.splits)

lemma store_action_index:
  "store_action E p ns i args = Inr (ns', i') \<Longrightarrow> i \<le> i'"
  by (auto simp: store_action_def split: if_splits nargs.splits sum.splits
      dest!: store_collected_index)

lemma do_action_index:
  "do_action E P p ns i args = Inr (ns', i') \<Longrightarrow> i \<le> i'"
  by (auto simp: do_action_def split: if_splits dest: store_action_index)

lemma bundle_loop_index:
  "bundle_loop E P ns i args cs = Inr (P', ns', i') \<Longrightarrow> i \<le> i'"
proof (induction cs arbitrary: P ns i)
  case Nil
  then show ?case by simp
next
  case (Cons c cs)
  from Cons.prems obtain vp ns1 i1 where
    step: "do_action E (P\<lparr>user_name_parameters := user_name_parameters P @ [p_name vp]\<rparr>)
             vp ns i args = Inr (ns1, i1)" and
    rest: "bundle_loop E (P\<lparr>user_name_parameters := user_name_parameters P @ [p_name vp]\<rparr>)
             ns1 i1 args cs = Inr (P', ns', i')"
    by (auto split: option.splits sum.splits)
  from do_action_index [OF step] Cons.IH [OF rest] show ?case by simp
qed

lemma scan_token_index:
  "scan_token E P ns i args = Inr (P', ns', i') \<Longrightarrow> i \<le> i'"
  by (auto simp: scan_token_def split: if_splits option.splits sum.splits
      dest: bundle_loop_index do_action_index)

termination scan
proof (relation "measure (\<lambda>(E, P, ns, index, args). length args - index)")
  show "wf (measure (\<lambda>(E, P, ns, index, args). length args - index))"
    by simp
next
  fix E P ns index args x P' y ns' index'
  assume "index < length args"
    and "scan_token E P ns index args = Inr x" and "(P', y) = x" and "(ns', index') = y"
  then have "index \<le> index'"
    using scan_token_index [of E P ns index args P' ns' index'] by simp
  with \<open>index < length args\<close>
  show "((E, P', ns', index' + 1, args), E, P, ns, index, args)
          \<in> measure (\<lambda>(E, P, ns, index, args). length args - index)"
    by simp
qed

declare scan.simps [simp del]

section \<open>The long-flag grammar\<close>

lemma in_class_dash: "in_class c [(CHR ''-'', CHR ''-'')] \<longleftrightarrow> c = CHR ''-''"
proof -
  have "of_char c = (of_char (CHR ''-'') :: nat) \<longleftrightarrow> c = CHR ''-''"
    by (rule of_char_eq_iff)
  then show ?thesis
    by (auto simp: in_class_def in_range_def)
qed

lemma in_class_underscore:
  "in_class c [(CHR ''A'', CHR ''Z''), (CHR ''a'', CHR ''z''), (CHR ''_'', CHR ''_'')]
     \<longleftrightarrow> is_letter_or_underscore c"
proof -
  have "of_char c = (of_char (CHR ''_'') :: nat) \<longleftrightarrow> c = CHR ''_''"
    by (rule of_char_eq_iff)
  then show ?thesis
    by (auto simp: in_class_def in_range_def is_letter_or_underscore_def is_letter_def)
qed

lemma star_chars: "star {[c] | c. Q c} = {w. list_all Q w}"
proof (intro set_eqI iffI)
  fix w assume "w \<in> star {[c] | c. Q c}"
  then obtain ws where "w = concat ws" "set ws \<subseteq> {[c] | c. Q c}"
    unfolding star_def by blast
  then show "w \<in> {w. list_all Q w}"
    by (induction ws arbitrary: w) auto
next
  fix w assume "w \<in> {w. list_all Q w}"
  then have "w = concat (map (\<lambda>c. [c]) w)" "set (map (\<lambda>c. [c]) w) \<subseteq> {[c] | c. Q c}"
    by (induction w) (auto simp: list_all_iff)
  then show "w \<in> star {[c] | c. Q c}"
    unfolding star_def by blast
qed

lemma lang_chars_Cons: "c # w \<in> lang (Seq (Chars rs) r) \<longleftrightarrow> in_class c rs \<and> w \<in> lang r"
proof
  assume "c # w \<in> lang (Seq (Chars rs) r)"
  then show "in_class c rs \<and> w \<in> lang r"
    by (auto simp: conc_def)
next
  assume "in_class c rs \<and> w \<in> lang r"
  then have "[c] \<in> lang (Chars rs)" "w \<in> lang r" "c # w = [c] @ w"
    by simp_all
  then show "c # w \<in> lang (Seq (Chars rs) r)"
    unfolding lang.simps(5) conc_def by blast
qed

lemma lang_chars_Nil: "[] \<notin> lang (Seq (Chars rs) r)"
  by (auto simp: conc_def)

lemma lang_star_chars: "w \<in> lang (Star (Chars rs)) \<longleftrightarrow> list_all (\<lambda>c. in_class c rs) w"
  by (simp add: star_chars)

lemma lang_letters:
  "w \<in> lang (Seq letter (Seq letter (Star letter))) \<longleftrightarrow>
     (\<exists>a b xs. w = a # b # xs \<and> is_letter a \<and> is_letter b \<and> list_all is_letter xs)"
proof (cases w)
  case Nil
  then show ?thesis unfolding letter_def by (simp only: lang_chars_Nil) simp
next
  case (Cons a u)
  then show ?thesis
    unfolding letter_def
    by (cases u)
      (simp_all only: lang_chars_Nil lang_chars_Cons lang_star_chars is_letter_def [symmetric],
        simp_all)
qed

lemma lang_tail:
  "w \<in> lang (Seq (Star letter_or_underscore) letter) \<longleftrightarrow>
     (\<exists>ys z. w = ys @ [z] \<and> list_all is_letter_or_underscore ys \<and> is_letter z)"
  by (auto simp: letter_def letter_or_underscore_def conc_def star_chars in_class_underscore
      is_letter_def [symmetric])

lemma lang_dash: "w \<in> lang (Seq dash r) \<longleftrightarrow> (\<exists>u. w = CHR ''-'' # u \<and> u \<in> lang r)"
  unfolding dash_def
  by (cases w) (simp_all only: lang_chars_Nil lang_chars_Cons in_class_dash, simp_all)

lemma lang_long_command:
  "s \<in> lang long_command_re \<longleftrightarrow>
     (\<exists>a b xs ys z. s = CHR ''-'' # CHR ''-'' # a # b # xs @ ys @ [z] \<and>
        is_letter a \<and> is_letter b \<and> list_all is_letter xs \<and>
        list_all is_letter_or_underscore ys \<and> is_letter z)"
proof -
  have "s \<in> lang long_command_re \<longleftrightarrow>
      (\<exists>u v. s = CHR ''-'' # CHR ''-'' # u @ v \<and>
         u \<in> lang (Seq letter (Seq letter (Star letter))) \<and>
         v \<in> lang (Seq (Star letter_or_underscore) letter))"
    unfolding long_command_re_def lang_dash
    unfolding lang.simps(5) [of "Seq letter (Seq letter (Star letter))"] conc_def
    by auto
  also have "\<dots> \<longleftrightarrow> (\<exists>a b xs ys z. s = CHR ''-'' # CHR ''-'' # a # b # xs @ ys @ [z] \<and>
        is_letter a \<and> is_letter b \<and> list_all is_letter xs \<and>
        list_all is_letter_or_underscore ys \<and> is_letter z)"
  proof (intro iffI; elim exE conjE)
    fix u v
    assume "s = CHR ''-'' # CHR ''-'' # u @ v"
      "u \<in> lang (Seq letter (Seq letter (Star letter)))"
      "v \<in> lang (Seq (Star letter_or_underscore) letter)"
    then show "\<exists>a b xs ys z. s = CHR ''-'' # CHR ''-'' # a # b # xs @ ys @ [z] \<and>
        is_letter a \<and> is_letter b \<and> list_all is_letter xs \<and>
        list_all is_letter_or_underscore ys \<and> is_letter z"
      unfolding lang_letters lang_tail by (elim exE conjE) (simp, blast)
  next
    fix a b xs ys z
    assume s: "s = CHR ''-'' # CHR ''-'' # a # b # xs @ ys @ [z]"
      and l: "is_letter a" "is_letter b" "list_all is_letter xs"
      "list_all is_letter_or_underscore ys" "is_letter z"
    have "a # b # xs \<in> lang (Seq letter (Seq letter (Star letter)))"
      unfolding lang_letters using l by simp
    moreover have "ys @ [z] \<in> lang (Seq (Star letter_or_underscore) letter)"
      unfolding lang_tail using l by simp
    moreover have "s = CHR ''-'' # CHR ''-'' # (a # b # xs) @ (ys @ [z])"
      using s by simp
    ultimately show "\<exists>u v. s = CHR ''-'' # CHR ''-'' # u @ v \<and>
         u \<in> lang (Seq letter (Seq letter (Star letter))) \<and>
         v \<in> lang (Seq (Star letter_or_underscore) letter)"
      by blast
  qed
  finally show ?thesis .
qed

lemma letter_is_letter_or_underscore: "is_letter c \<Longrightarrow> is_letter_or_underscore c"
  by (simp add: is_letter_or_underscore_def)

lemma matches_long_command: "matches long_command_re s \<longleftrightarrow> code_long_flag s"
proof
  assume "matches long_command_re s"
  then obtain a b xs ys z where s: "s = CHR ''-'' # CHR ''-'' # a # b # xs @ ys @ [z]"
    and l: "is_letter a" "is_letter b" "list_all is_letter xs"
      "list_all is_letter_or_underscore ys" "is_letter z"
    unfolding matches_lang lang_long_command by blast
  then show "code_long_flag s"
    by (auto simp: code_long_flag_def long_name_shape_def list_all_iff
        letter_is_letter_or_underscore)
next
  assume c: "code_long_flag s"
  define name where "name = drop 2 s"
  from c have s: "s = ''--'' @ name"
    unfolding name_def code_long_flag_def by (metis append_take_drop_id)
  from c have n: "3 \<le> length name" "is_letter (name ! 0)" "is_letter (name ! 1)"
    "is_letter (last name)" "list_all is_letter_or_underscore name"
    unfolding name_def code_long_flag_def long_name_shape_def by simp_all
  from n(1) obtain a b rest where name: "name = a # b # rest" and "rest \<noteq> []"
    by (cases name; cases "tl name"; cases "tl (tl name)") auto
  then have rest: "rest = butlast rest @ [last rest]" by simp
  have "s = CHR ''-'' # CHR ''-'' # a # b # [] @ butlast rest @ [last rest]"
    using s name rest by simp
  moreover have "is_letter a" "is_letter b" "is_letter (last rest)"
    using n name \<open>rest \<noteq> []\<close> by simp_all
  moreover have "list_all is_letter_or_underscore (butlast rest)"
    using n(5) name by (auto simp: list_all_iff dest: in_set_butlastD)
  moreover have "list_all is_letter []" by simp
  ultimately show "matches long_command_re s"
    unfolding matches_lang lang_long_command by blast
qed

lemma re_match_long_command:
  "CHR 0x0A \<notin> set s \<Longrightarrow> re_match long_command_re s = code_long_flag s"
  unfolding re_match_def matches_long_command
  by (cases s rule: rev_cases) auto

text \<open>
  Claim C5, as amended. For a token without a newline character whose name, after the
  first two characters, has three characters or more: the pattern that \<open>add_parameter\<close>
  applies to a long command and that \<open>parse_params\<close> applies to a token accepts it exactly
  when it begins with \<open>--\<close> and the first two characters and the last character of the
  name are letters and its other characters are letters or underscores.
\<close>

theorem long_flag_grammar:
  "CHR 0x0A \<notin> set s \<Longrightarrow> 3 \<le> length (drop 2 s) \<Longrightarrow>
   re_match long_command_re s = (take 2 s = ''--'' \<and> long_name_shape (drop 2 s))"
  by (simp add: re_match_long_command code_long_flag_def)

theorem long_flag_grammar_witness:
  "CHR 0x0A \<notin> set ''--ab_c'' \<and> 3 \<le> length (drop 2 ''--ab_c'') \<and>
   re_match long_command_re ''--ab_c'' \<and> \<not> re_match long_command_re ''--a_bc''"
  using long_flag_grammar [of "''--ab_c''"] long_flag_grammar [of "''--a_bc''"]
  by (simp add: long_name_shape_def is_letter_def is_letter_or_underscore_def in_class_def
      in_range_def)

text \<open>
  Claim C5 as stated fails: \<open>--a_b\<close> has the form the claim describes (a name whose
  first and last characters are letters, with an underscore between them), and the
  pattern rejects it, at registration and at parse time.
\<close>

theorem long_flag_counterexample:
  "spec_long_flag ''--a_b'' \<and> \<not> re_match long_command_re ''--a_b'' \<and>
   add_parameter no_platform empty_parser (Some ''-a'') (Some ''--a_b'') no_kwargs
     = Inl (Error NotValidLongCommand) \<and>
   attribute ''a_b'' (parse_params no_platform empty_parser [''--a_b''] None)
     = Inl (Error (NotValidParameterFormat ''--a_b''))"
  by code_simp

text \<open>The pattern on a name of two letters.\<close>

lemma long_flag_two_letters:
  "spec_long_flag ''--ab'' \<and> \<not> re_match long_command_re ''--ab'' \<and>
   add_parameter no_platform empty_parser (Some ''-a'') (Some ''--ab'') no_kwargs
     = Inl (Error NotValidLongCommand) \<and>
   attribute ''ab'' (parse_params no_platform empty_parser [''--ab''] None)
     = Inl (Error (NotValidParameterFormat ''--ab''))"
  by code_simp

section \<open>Declarations of dependencies and incompatibilities\<close>

lemma extend_fresh_aux:
  "n = length restriction - i \<Longrightarrow>
   extend False restriction i target = Some (target @ drop i restriction)"
proof (induction n arbitrary: i target)
  case 0
  then show ?case by (subst extend.simps) simp
next
  case (Suc n)
  then have "i < length restriction" "n = length restriction - Suc i" by simp_all
  then show ?case
    using Suc.IH [of "Suc i" "target @ [restriction ! i]"]
    by (subst extend.simps) (simp add: Cons_nth_drop_Suc)
qed

lemma extend_not_aliased: "extend False restriction 0 target = Some (target @ restriction)"
  using extend_fresh_aux [of _ restriction 0 target] by simp

lemma map_of_dedup:
  "map_of (map (\<lambda>kv. (fst kv, remdups (snd kv))) al) k = map_option remdups (map_of al k)"
  by (induction al) auto

text \<open>The call with one first argument and a string as restriction.\<close>

lemma restrict_pair:
  "restrict_params P own other [AStr p, AStr r] =
     (if valid_parameter P ''short'' (replace_dash r) = None
      then Some (Inl (Error (NotExists (replace_dash r))))
      else if valid_parameter P ''short'' (replace_dash p) = None
      then Some (Inl (Error (NotExists (replace_dash p))))
      else if p = r then Some (Inl (Error (RestrictionToItself p)))
      else if (\<exists>rs. map_of other p = Some rs \<and> r \<in> set rs)
      then Some (Inl (Error (DependencyAndIncompatibility p r)))
      else Some (Inr (map (\<lambda>kv. (fst kv, remdups (snd kv)))
             (AList.update p (case map_of own p of None \<Rightarrow> [r] | Some t \<Rightarrow> t @ [r]) own))))"
  by (auto simp: restrict_params_def check_restriction_def extend_not_aliased
      split: option.splits)

lemmas re_defs = re_match_def short_command_re_def short_bundle_re_def long_command_re_def
  dash_def letter_def letter_or_underscore_def in_class_def in_range_def

lemma flags_ab_registered:
  "and_then (add_parameter E empty_parser (Some ''-a'') None (no_kwargs\<lparr>kw_action := ''store_true''\<rparr>))
     (\<lambda>P. add_parameter E P (Some ''-b'') None (no_kwargs\<lparr>kw_action := ''store_true''\<rparr>))
   = Inr flags_ab"
  by (simp add: and_then_def add_parameter_def new_parameter_def no_kwargs_def empty_parser_def
      re_defs replace_dash_def py_eq_def convert_field_def check_type_def init_nargs_def
      flags_ab_def flag_a_def Let_def)

lemma count_list_remdups: "count_list (remdups xs) x = (if x \<in> set xs then 1 else 0)"
  by (induction xs) auto

lemma valid_parameter_graphs [simp]:
  "valid_parameter (P\<lparr>dependency_params_restrictions := d\<rparr>) = valid_parameter P"
  "valid_parameter (P\<lparr>incompatible_params_restrictions := d\<rparr>) = valid_parameter P"
  "valid_parameter (P\<lparr>user_name_parameters := u\<rparr>) = valid_parameter P"
  by (simp_all add: valid_parameter_def fun_eq_iff)

lemma dedup_keys: "map fst (map (\<lambda>kv. (fst kv, remdups (snd kv))) al) = map fst al"
  by (induction al) auto

lemma update_present_keys: "map_of al k = Some v \<Longrightarrow> map fst (AList.update k w al) = map fst al"
  by (auto simp: update_keys dest: map_of_SomeD intro: rev_image_eqI)

text \<open>
  Claim C9. When \<open>dependency_params(a, b)\<close> has returned, the same call made again
  returns too; after the first call and after the second, \<open>b\<close> stands exactly once in the
  list of \<open>a\<close>, and the second call changes neither the keys of the dictionary nor the set
  of any of its lists.
\<close>

theorem dependency_declared_twice:
  assumes "dependency_params P [AStr a, AStr b] = Some (Inr P1)"
  shows "\<exists>P2 rs1 rs2.
     dependency_params P1 [AStr a, AStr b] = Some (Inr P2) \<and>
     map_of (dependency_params_restrictions P1) a = Some rs1 \<and> count_list rs1 b = 1 \<and>
     map_of (dependency_params_restrictions P2) a = Some rs2 \<and> count_list rs2 b = 1 \<and>
     (\<forall>k. map_option set (map_of (dependency_params_restrictions P2) k)
          = map_option set (map_of (dependency_params_restrictions P1) k)) \<and>
     map fst (dependency_params_restrictions P2) = map fst (dependency_params_restrictions P1)"
proof -
  define own where "own = dependency_params_restrictions P"
  define other where "other = incompatible_params_restrictions P"
  define v where "v = (case map_of own a of None \<Rightarrow> [b] | Some t \<Rightarrow> t @ [b])"
  define d1 where "d1 = map (\<lambda>kv. (fst kv, remdups (snd kv))) (AList.update a v own)"
  from assms have ok: "valid_parameter P ''short'' (replace_dash b) \<noteq> None"
    "valid_parameter P ''short'' (replace_dash a) \<noteq> None" "a \<noteq> b"
    "\<not> (\<exists>rs. map_of other a = Some rs \<and> b \<in> set rs)"
    and P1: "P1 = P\<lparr>dependency_params_restrictions := d1\<rparr>"
    unfolding dependency_params_def restrict_pair own_def other_def d1_def v_def
    by (auto split: if_splits)
  have bv: "b \<in> set v" unfolding v_def by (simp split: option.splits)
  have d1a: "map_of d1 a = Some (remdups v)"
    unfolding d1_def by (simp add: map_of_dedup update_conv')
  define d2 where "d2 = map (\<lambda>kv. (fst kv, remdups (snd kv))) (AList.update a (remdups v @ [b]) d1)"
  have second: "dependency_params P1 [AStr a, AStr b]
      = Some (Inr (P1\<lparr>dependency_params_restrictions := d2\<rparr>))"
    unfolding dependency_params_def restrict_pair
    using ok d1a by (simp add: P1 d2_def other_def)
  have d2k: "map_option set (map_of d2 k) = map_option set (map_of d1 k)" for k
    unfolding d2_def using bv d1a
    by (cases "map_of d1 k") (auto simp: map_of_dedup update_conv' d1_def)
  have keys: "map fst d2 = map fst d1"
    unfolding d2_def by (simp only: dedup_keys update_present_keys [OF d1a])
  have "map_of d2 a = Some (remdups (remdups v @ [b]))"
    unfolding d2_def by (simp add: map_of_dedup update_conv')
  with second d1a d2k keys bv show ?thesis
    by (simp add: P1 count_list_remdups)
qed

text \<open>The calls \<open>dependency_params('-a', '-b')\<close> on a parser with \<open>-a\<close> and \<open>-b\<close>.\<close>

theorem dependency_declared_twice_witness:
  "dependency_params flags_ab [AStr ''-a'', AStr ''-b'']
     = Some (Inr (flags_ab\<lparr>dependency_params_restrictions := [(''-a'', [''-b''])]\<rparr>)) \<and>
   (\<exists>P2 rs2.
      dependency_params (flags_ab\<lparr>dependency_params_restrictions := [(''-a'', [''-b''])]\<rparr>)
        [AStr ''-a'', AStr ''-b''] = Some (Inr P2) \<and>
      map_of (dependency_params_restrictions P2) ''-a'' = Some rs2 \<and> count_list rs2 ''-b'' = 1)"
proof -
  have first: "dependency_params flags_ab [AStr ''-a'', AStr ''-b'']
     = Some (Inr (flags_ab\<lparr>dependency_params_restrictions := [(''-a'', [''-b''])]\<rparr>))"
    by (simp add: dependency_params_def restrict_pair valid_parameter_def replace_dash_def
        flags_ab_def flag_a_def empty_parser_def)
  from dependency_declared_twice [OF first] first show ?thesis by blast
qed

lemma declare_loop_conflict:
  assumes "map_of other p = Some rs" "r \<in> set rs" "r \<in> set restriction"
  shows "AStr p \<in> set as \<Longrightarrow> declare_loop P other restriction fresh own as \<noteq> Some (Inr g)"
proof (induction as arbitrary: fresh own)
  case Nil
  then show ?case by simp
next
  case (Cons a as)
  show ?case
  proof (cases a)
    case (AStr q)
    show ?thesis
    proof (cases "q = p")
      case True
      from assms have "find (\<lambda>r. r \<in> set rs) restriction \<noteq> None"
        by (auto simp: find_None_iff)
      with True AStr assms(1) show ?thesis
        by (auto split: option.splits)
    next
      case False
      with Cons.prems AStr have "AStr p \<in> set as" by simp
      from Cons.IH [OF this] AStr show ?thesis
        by (auto split: option.splits)
    qed
  qed simp_all
qed

lemma restrict_params_conflict:
  assumes "map_of other p = Some rs" "r \<in> set rs"
    "AStr p \<in> set (butlast args)" "r \<in> set (restriction_of (last args))"
  shows "restrict_params P own other args \<noteq> Some (Inr g)"
proof (cases "check_restriction P (last args)")
  case (Inl a)
  then show ?thesis by (simp add: restrict_params_def)
next
  case (Inr restriction)
  then have "restriction = restriction_of (last args)"
    by (auto simp: check_restriction_def restriction_of_def split: arg.splits if_splits option.splits)
  with assms have "declare_loop P other restriction [] own (butlast args) \<noteq> Some (Inr g')" for g'
    by (intro declare_loop_conflict [where p = p and r = r and rs = rs]) simp_all
  with Inr show ?thesis
    by (auto simp: restrict_params_def split: option.splits sum.splits)
qed

lemma restrict_pair_enters:
  assumes "restrict_params P own other [AStr p, AStr r] = Some (Inr g)"
  shows "\<exists>rs. map_of g p = Some rs \<and> r \<in> set rs"
    and "valid_parameter P ''short'' (replace_dash r) \<noteq> None"
    and "valid_parameter P ''short'' (replace_dash p) \<noteq> None" and "p \<noteq> r"
  using assms unfolding restrict_pair
  by (auto simp: map_of_dedup update_conv' split: if_splits option.splits)

text \<open>
  Claim C6, as amended. When the list of \<open>p\<close> in one dictionary holds \<open>r\<close>, a
  declaration for the other dictionary with \<open>p\<close> among its first arguments and \<open>r\<close> in
  its restriction never returns the parser; and when the declaration of the pair
  \<open>(p, r)\<close> has returned for one dictionary, the declaration of \<open>(p, r)\<close> for the other
  raises the error of a parameter that is both a dependency and an incompatibility.
\<close>

theorem conflicting_declaration_rejected:
  "(AStr p \<in> set (butlast args) \<and> r \<in> set (restriction_of (last args)) \<and>
    (\<exists>rs. map_of (incompatible_params_restrictions P) p = Some rs \<and> r \<in> set rs)
      \<longrightarrow> (\<forall>P'. dependency_params P args \<noteq> Some (Inr P'))) \<and>
   (AStr p \<in> set (butlast args) \<and> r \<in> set (restriction_of (last args)) \<and>
    (\<exists>rs. map_of (dependency_params_restrictions P) p = Some rs \<and> r \<in> set rs)
      \<longrightarrow> (\<forall>P'. incompatible_params P args \<noteq> Some (Inr P'))) \<and>
   (incompatible_params P [AStr p, AStr r] = Some (Inr Q)
      \<longrightarrow> dependency_params Q [AStr p, AStr r]
            = Some (Inl (Error (DependencyAndIncompatibility p r)))) \<and>
   (dependency_params P [AStr p, AStr r] = Some (Inr Q)
      \<longrightarrow> incompatible_params Q [AStr p, AStr r]
            = Some (Inl (Error (DependencyAndIncompatibility p r))))"
proof (intro conjI impI allI; (elim conjE exE)?)
  fix P' rs
  assume "AStr p \<in> set (butlast args)" "r \<in> set (restriction_of (last args))"
    "map_of (incompatible_params_restrictions P) p = Some rs" "r \<in> set rs"
  from restrict_params_conflict [OF this(3,4,1,2)]
  show "dependency_params P args \<noteq> Some (Inr P')"
    by (auto simp: dependency_params_def split: option.splits sum.splits)
next
  fix P' rs
  assume "AStr p \<in> set (butlast args)" "r \<in> set (restriction_of (last args))"
    "map_of (dependency_params_restrictions P) p = Some rs" "r \<in> set rs"
  from restrict_params_conflict [OF this(3,4,1,2)]
  show "incompatible_params P args \<noteq> Some (Inr P')"
    by (auto simp: incompatible_params_def split: option.splits sum.splits)
next
  assume "incompatible_params P [AStr p, AStr r] = Some (Inr Q)"
  then obtain g where g: "restrict_params P (incompatible_params_restrictions P)
      (dependency_params_restrictions P) [AStr p, AStr r] = Some (Inr g)"
    and Q: "Q = P\<lparr>incompatible_params_restrictions := g\<rparr>"
    by (auto simp: incompatible_params_def split: option.splits sum.splits)
  from restrict_pair_enters [OF g] Q
  show "dependency_params Q [AStr p, AStr r]
      = Some (Inl (Error (DependencyAndIncompatibility p r)))"
    by (auto simp: dependency_params_def restrict_pair)
next
  assume "dependency_params P [AStr p, AStr r] = Some (Inr Q)"
  then obtain g where g: "restrict_params P (dependency_params_restrictions P)
      (incompatible_params_restrictions P) [AStr p, AStr r] = Some (Inr g)"
    and Q: "Q = P\<lparr>dependency_params_restrictions := g\<rparr>"
    by (auto simp: dependency_params_def split: option.splits sum.splits)
  from restrict_pair_enters [OF g] Q
  show "incompatible_params Q [AStr p, AStr r]
      = Some (Inl (Error (DependencyAndIncompatibility p r)))"
    by (auto simp: incompatible_params_def restrict_pair)
qed

lemma flags_ab_valid:
  "valid_parameter flags_ab ''short'' ''a'' \<noteq> None"
  "valid_parameter flags_ab ''short'' ''b'' \<noteq> None"
  by (simp_all add: valid_parameter_def flags_ab_def flag_a_def empty_parser_def)

text \<open>The four parts on the parser with \<open>-a\<close> and \<open>-b\<close>.\<close>

theorem conflicting_declaration_rejected_witness:
  "incompatible_params flags_ab [AStr ''-a'', AStr ''-b'']
     = Some (Inr (flags_ab\<lparr>incompatible_params_restrictions := [(''-a'', [''-b''])]\<rparr>)) \<and>
   dependency_params (flags_ab\<lparr>incompatible_params_restrictions := [(''-a'', [''-b''])]\<rparr>)
     [AStr ''-a'', AStr ''-b''] = Some (Inl (Error (DependencyAndIncompatibility ''-a'' ''-b''))) \<and>
   dependency_params flags_ab [AStr ''-a'', AStr ''-b'']
     = Some (Inr (flags_ab\<lparr>dependency_params_restrictions := [(''-a'', [''-b''])]\<rparr>)) \<and>
   incompatible_params (flags_ab\<lparr>dependency_params_restrictions := [(''-a'', [''-b''])]\<rparr>)
     [AStr ''-a'', AStr ''-b''] = Some (Inl (Error (DependencyAndIncompatibility ''-a'' ''-b''))) \<and>
   (\<forall>P'. dependency_params (flags_ab\<lparr>incompatible_params_restrictions := [(''-a'', [''-b''])]\<rparr>)
     [AStr ''-b'', AStr ''-a'', AList [''-a'', ''-b'']] \<noteq> Some (Inr P'))"
proof -
  have 1: "incompatible_params flags_ab [AStr ''-a'', AStr ''-b'']
     = Some (Inr (flags_ab\<lparr>incompatible_params_restrictions := [(''-a'', [''-b''])]\<rparr>))"
    by (simp add: incompatible_params_def restrict_pair flags_ab_valid replace_dash_def)
      (simp add: flags_ab_def empty_parser_def)
  have 2: "dependency_params flags_ab [AStr ''-a'', AStr ''-b'']
     = Some (Inr (flags_ab\<lparr>dependency_params_restrictions := [(''-a'', [''-b''])]\<rparr>))"
    by (simp add: dependency_params_def restrict_pair flags_ab_valid replace_dash_def)
      (simp add: flags_ab_def empty_parser_def)
  have 3: "AStr ''-a'' \<in> set (butlast [AStr ''-b'', AStr ''-a'', AList [''-a'', ''-b'']]) \<and>
      ''-b'' \<in> set (restriction_of (last [AStr ''-b'', AStr ''-a'', AList [''-a'', ''-b'']])) \<and>
      (\<exists>rs. map_of (incompatible_params_restrictions
               (flags_ab\<lparr>incompatible_params_restrictions := [(''-a'', [''-b''])]\<rparr>)) ''-a'' = Some rs
            \<and> ''-b'' \<in> set rs)"
    by (simp add: restriction_of_def)
  from conflicting_declaration_rejected
    [where p = "''-a''" and r = "''-b''"
      and args = "[AStr ''-b'', AStr ''-a'', AList [''-a'', ''-b'']]"
      and P = "flags_ab\<lparr>incompatible_params_restrictions := [(''-a'', [''-b''])]\<rparr>"]
    conflicting_declaration_rejected
    [where p = "''-a''" and r = "''-b''" and P = flags_ab
      and Q = "flags_ab\<lparr>incompatible_params_restrictions := [(''-a'', [''-b''])]\<rparr>"]
    conflicting_declaration_rejected
    [where p = "''-a''" and r = "''-b''" and P = flags_ab
      and Q = "flags_ab\<lparr>dependency_params_restrictions := [(''-a'', [''-b''])]\<rparr>"]
    1 2 3
  show ?thesis by simp
qed

text \<open>
  Claim C6 as stated fails for the reversed pair: after \<open>incompatible_params('-a', '-b')\<close>,
  the call \<open>dependency_params('-b', '-a')\<close> returns and records the dependency.
\<close>

theorem reversed_pair_accepted_counterexample:
  "incompatible_params flags_ab [AStr ''-a'', AStr ''-b'']
     = Some (Inr (flags_ab\<lparr>incompatible_params_restrictions := [(''-a'', [''-b''])]\<rparr>)) \<and>
   dependency_params (flags_ab\<lparr>incompatible_params_restrictions := [(''-a'', [''-b''])]\<rparr>)
     [AStr ''-b'', AStr ''-a'']
     = Some (Inr (flags_ab\<lparr>incompatible_params_restrictions := [(''-a'', [''-b''])],
                           dependency_params_restrictions := [(''-b'', [''-a''])]\<rparr>))"
  by (simp add: incompatible_params_def dependency_params_def restrict_pair flags_ab_valid
      replace_dash_def)
    (simp add: flags_ab_def empty_parser_def)

section \<open>Consuming the values of a parameter\<close>

lemma raised_not_needs: "raised e \<noteq> Error (NeedsValues m)"
  by (simp add: raised_def)

lemma check_type_int_token: "check_type E TInt (PyStr a) = Inr (py_int a \<noteq> None)"
  by (simp add: check_type_def split: option.splits)

lemma value_test_token: "value_test E (PyStr a) = Inr (is_value a)"
  by (cases "py_int a") (simp_all add: value_test_def check_type_int_token is_value_def)

lemma parse_value_result:
  "parse_value E p v = Inr x \<Longrightarrow> py_call E (p_type p) v = Inr x"
  by (auto simp: parse_value_def split: sum.splits bool.splits if_splits)

lemma parse_value_not_needs: "parse_value E p v \<noteq> Inl (Error (NeedsValues m))"
  by (auto simp: parse_value_def value_test_def raised_not_needs
      split: sum.splits bool.splits if_splits scalar.splits)

lemma parse_values_not_needs: "parse_values E p vs \<noteq> Inl (Error (NeedsValues m))"
  by (induction vs) (auto simp: parse_value_not_needs split: sum.splits)

lemma parse_values_length: "parse_values E p vs = Inr xs \<Longrightarrow> length xs = length vs"
  by (induction vs arbitrary: xs) (auto split: sum.splits)

lemma parse_values_results:
  "parse_values E p vs = Inr xs \<Longrightarrow> list_all2 (\<lambda>v x. py_call E (p_type p) v = Inr x) vs xs"
  by (induction vs arbitrary: xs) (auto split: sum.splits dest: parse_value_result)


lemma store_action_fixed:
  assumes "p_nargs p = Fixed n" "p_action p = ''store''" "\<not> listed ns (p_dest p)"
  shows "store_action E p ns i args =
    (if length args - (i + 1) < n then Inl (Error (NeedsValues n))
     else (case parse_values E p (map PyStr (take n (drop (i + 1) args))) of
             Inl a \<Rightarrow> Inl a
           | Inr vs \<Rightarrow>
               Inr (ns(p_dest p \<mapsto> (if n = 1 then Scalar (hd vs) else PyList vs)), i + n)))"
proof (cases "length args - (i + 1) < n")
  case True
  with assms show ?thesis
    by (simp add: store_action_def parse_list_def)
next
  case False
  then have len: "length (take n (drop (i + 1) args)) = n" by simp
  show ?thesis
  proof (cases "parse_values E p (map PyStr (take n (drop (i + 1) args)))")
    case (Inl a)
    with assms False show ?thesis
      by (simp add: store_action_def parse_list_def)
  next
    case (Inr vs)
    from parse_values_length [OF Inr] len have "length vs = n" by simp
    with assms False Inr show ?thesis
      by (simp add: store_action_def parse_list_def)
  qed
qed

text \<open>
  Claim C3. For a parameter of action \<open>store\<close> with arity \<open>Fixed n\<close> whose \<open>dest\<close> is not yet
  in the namespace: \<open>_store_action\<close> raises "needs \<open>m\<close> values" exactly when \<open>m = n\<close> and
  fewer than \<open>n\<close> tokens stand after the flag; with at least \<open>n\<close> tokens after the flag
  it hands exactly the next \<open>n\<close> tokens to the validation of values, whatever they look
  like, and its result is decided by them alone; and when it returns, the index has
  advanced by \<open>n\<close>.
\<close>

theorem fixed_arity_consumption:
  assumes "p_nargs p = Fixed n" "p_action p = ''store''" "\<not> listed ns (p_dest p)"
  shows "(store_action E p ns i args = Inl (Error (NeedsValues m)))
           = (m = n \<and> length args - (i + 1) < n) \<and>
         (n \<le> length args - (i + 1) \<longrightarrow>
            length (take n (drop (i + 1) args)) = n \<and>
            store_action E p ns i args =
              (case parse_values E p (map PyStr (take n (drop (i + 1) args))) of
                 Inl a \<Rightarrow> Inl a
               | Inr vs \<Rightarrow>
                   Inr (ns(p_dest p \<mapsto> (if n = 1 then Scalar (hd vs) else PyList vs)), i + n))) \<and>
         (\<forall>ns' i'. store_action E p ns i args = Inr (ns', i') \<longrightarrow>
            i' = i + n \<and> n \<le> length args - (i + 1))"
  unfolding store_action_fixed [OF assms]
  by (auto simp: parse_values_not_needs split: sum.splits)

text \<open>
  What the numeric branch of \<open>_store_action\<close> stores when it returns: for \<open>n = 1\<close> the
  conversion of the token after the flag, for any other \<open>n\<close> the list of the conversions
  of the \<open>n\<close> tokens after the flag, in their order.
\<close>

lemma store_action_fixed_stored:
  assumes "p_nargs p = Fixed n" "p_action p = ''store''"
    "store_action E p ns i args = Inr (ns', i')"
  shows "(n = 1 \<longrightarrow> (\<exists>v. ns' (p_dest p) = Some (Scalar v) \<and>
                        py_call E (p_type p) (PyStr (args ! (i + 1))) = Inr v)) \<and>
         (n \<noteq> 1 \<longrightarrow> (\<exists>vs. ns' (p_dest p) = Some (PyList vs) \<and> length vs = n \<and>
                        list_all2 (\<lambda>a v. py_call E (p_type p) (PyStr a) = Inr v)
                          (take n (drop (i + 1) args)) vs))"
proof -
  from assms(3) have nl: "\<not> listed ns (p_dest p)"
    by (auto simp: store_action_def split: if_splits)
  from assms(3) obtain vs where
    vs: "parse_values E p (map PyStr (take n (drop (i + 1) args))) = Inr vs"
    and n: "n \<le> length args - (i + 1)"
    and ns': "ns' = ns(p_dest p \<mapsto> (if n = 1 then Scalar (hd vs) else PyList vs))"
    unfolding store_action_fixed [OF assms(1,2) nl]
    by (auto split: if_splits sum.splits)
  from parse_values_length [OF vs] n have len: "length vs = n" by simp
  from parse_values_results [OF vs]
  have all: "list_all2 (\<lambda>a v. py_call E (p_type p) (PyStr a) = Inr v)
      (take n (drop (i + 1) args)) vs"
    by (simp add: list_all2_map1)
  show ?thesis
  proof (cases "n = 1")
    case True
    with n have "i + 1 < length args" by simp
    from Cons_nth_drop_Suc [OF this] True
    have "take n (drop (i + 1) args) = [args ! (i + 1)]"
      by (metis One_nat_def take0 take_Suc_Cons)
    with vs True len have "py_call E (p_type p) (PyStr (args ! (i + 1))) = Inr (hd vs)"
      by (cases vs) (auto split: sum.splits dest: parse_value_result)
    with True ns' show ?thesis by simp
  next
    case False
    with ns' len all show ?thesis by simp
  qed
qed

text \<open>The numeric branch does not read \<open>default_nargs\<close>.\<close>

lemma parse_value_default_nargs:
  "parse_value E (p\<lparr>p_default_nargs := b\<rparr>) v = parse_value E p v"
  by (simp add: parse_value_def split: sum.splits bool.splits)

lemma parse_values_default_nargs:
  "parse_values E (p\<lparr>p_default_nargs := b\<rparr>) vs = parse_values E p vs"
  by (induction vs) (simp_all add: parse_value_default_nargs split: sum.splits)

lemma default_nargs_not_read:
  "p_nargs p = Fixed n \<Longrightarrow>
   store_action E (p\<lparr>p_default_nargs := b\<rparr>) ns i args = store_action E p ns i args"
  by (simp add: store_action_def parse_list_def parse_values_default_nargs split: sum.splits)

lemma int_param_registered:
  "new_parameter E nm None nm (no_kwargs\<lparr>kw_type := Some TInt\<rparr>)
     = Inr (int_param nm True (Fixed 1))"
  "new_parameter E nm None nm (no_kwargs\<lparr>kw_type := Some TInt, kw_nargs := Some (NInt 1)\<rparr>)
     = Inr (int_param nm False (Fixed 1))"
  "new_parameter E nm None nm (no_kwargs\<lparr>kw_type := Some TInt, kw_nargs := Some (NInt 2)\<rparr>)
     = Inr (int_param nm False (Fixed 2))"
  "new_parameter E nm None nm (no_kwargs\<lparr>kw_type := Some TInt, kw_nargs := Some (NStr ''*'')\<rparr>)
     = Inr (int_param nm False ZeroOrMore)"
  by (simp_all add: new_parameter_def no_kwargs_def init_nargs_def int_param_def)

lemma py_int_examples:
  "py_int ''3'' = Some 3" "py_int ''-4'' = Some (- 4)" "py_int ''-5'' = Some (- 5)"
  "py_int ''5'' = Some 5" "py_int ''7'' = Some 7" "py_int ''-x'' = None"
  by code_simp+

lemma is_value_examples:
  "is_value ''3''" "is_value ''-4''" "is_value ''-5''" "is_value ''5''" "is_value ''7''"
  "\<not> is_value ''-x''"
  by (simp_all add: is_value_def py_int_examples startswith_dash_def)

lemma parse_value_int:
  "parse_value E (int_param nm u n) (PyStr a) =
     (if is_value a then (case py_int a of None \<Rightarrow> Inl (Error IsNotType) | Some k \<Rightarrow> Inr (PyInt k))
      else Inl (Error NotValidValue))"
  by (simp add: parse_value_def value_test_token check_type_int_token int_param_def
      check_choices_def split: option.splits)

text \<open>
  Arity 2: two tokens taken and a third left; a token taken that looks like a flag and
  is then refused as a value; one token only.
\<close>

theorem fixed_arity_consumption_witness:
  "p_nargs (int_param ''n'' False (Fixed 2)) = Fixed 2 \<and>
   p_action (int_param ''n'' False (Fixed 2)) = ''store'' \<and>
   \<not> listed Map.empty (p_dest (int_param ''n'' False (Fixed 2))) \<and>
   store_action no_platform (int_param ''n'' False (Fixed 2)) Map.empty 0 [''-n'', ''3'', ''-4'', ''-x'']
     = Inr ([''n'' \<mapsto> PyList [PyInt 3, PyInt (- 4)]], 2) \<and>
   store_action no_platform (int_param ''n'' False (Fixed 2)) Map.empty 0 [''-n'', ''-x'', ''3'']
     = Inl (Error NotValidValue) \<and>
   store_action no_platform (int_param ''n'' False (Fixed 2)) Map.empty 0 [''-n'', ''3'']
     = Inl (Error (NeedsValues 2))"
proof -
  have h: "p_nargs (int_param ''n'' False (Fixed 2)) = Fixed 2"
    "p_action (int_param ''n'' False (Fixed 2)) = ''store''"
    "\<not> listed Map.empty (p_dest (int_param ''n'' False (Fixed 2)))"
    by (simp_all add: int_param_def listed_def)
  have 1: "parse_values no_platform (int_param ''n'' False (Fixed 2))
      (map PyStr (take 2 (drop (0 + 1) [''-n'', ''3'', ''-4'', ''-x''])))
      = Inr [PyInt 3, PyInt (- 4)]"
    by (simp add: parse_value_int is_value_examples py_int_examples)
  have 2: "parse_values no_platform (int_param ''n'' False (Fixed 2))
      (map PyStr (take 2 (drop (0 + 1) [''-n'', ''-x'', ''3''])))
      = Inl (Error NotValidValue)"
    by (simp add: parse_value_int is_value_examples py_int_examples)
  have d: "p_dest (int_param ''n'' False (Fixed 2)) = ''n''"
    by (simp add: int_param_def)
  from fixed_arity_consumption [OF h, of no_platform 0 "[''-n'', ''3'', ''-4'', ''-x'']" 2,
      THEN conjunct2, THEN conjunct1]
  have a: "store_action no_platform (int_param ''n'' False (Fixed 2)) Map.empty 0
      [''-n'', ''3'', ''-4'', ''-x''] = Inr ([''n'' \<mapsto> PyList [PyInt 3, PyInt (- 4)]], 2)"
    unfolding 1 d by simp
  from fixed_arity_consumption [OF h, of no_platform 0 "[''-n'', ''-x'', ''3'']" 2,
      THEN conjunct2, THEN conjunct1]
  have b: "store_action no_platform (int_param ''n'' False (Fixed 2)) Map.empty 0
      [''-n'', ''-x'', ''3''] = Inl (Error NotValidValue)"
    unfolding 2 by simp
  from fixed_arity_consumption [OF h, of no_platform 0 "[''-n'', ''3'']" 2, THEN conjunct1]
  have c: "store_action no_platform (int_param ''n'' False (Fixed 2)) Map.empty 0
      [''-n'', ''3''] = Inl (Error (NeedsValues 2))"
    by simp
  from h a b c show ?thesis by (intro conjI)
qed

lemma new_parameter_fields:
  assumes "new_parameter E nm long dst kw = Inr p"
  shows "init_nargs (kw_action kw) (p_default p) (p_const p) (kw_nargs kw) = Inr (p_nargs p) \<and>
    p_default_nargs p = (kw_nargs kw = None) \<and> p_action p = kw_action kw \<and>
    p_dest p = dst \<and> p_name p = nm \<and> p_long_name p = long"
  using assms unfolding new_parameter_def Let_def
  by (simp split: if_splits sum.splits) auto

lemma init_nargs_shape:
  assumes "init_nargs act d c narg = Inr n"
  shows "narg = None \<Longrightarrow> n = Fixed 1 \<or> n = Fixed 0"
    and "act = ''store_true'' \<or> act = ''store_false'' \<Longrightarrow> n = Fixed 0"
  using assms
  by (auto simp: init_nargs_def split: if_splits nargs_arg.splits)

lemma new_parameter_shape:
  assumes "new_parameter E nm long dst kw = Inr p"
  shows "p_dest p = dst" "p_name p = nm" "p_long_name p = long"
    and "p_default_nargs p \<Longrightarrow> p_nargs p = Fixed 1 \<or> p_nargs p = Fixed 0"
    and "p_action p = ''store_true'' \<or> p_action p = ''store_false'' \<Longrightarrow> p_nargs p = Fixed 0"
  using new_parameter_fields [OF assms] init_nargs_shape [of "kw_action kw" "p_default p" "p_const p" "kw_nargs kw" "p_nargs p"]
  by auto

text \<open>
  Claim C10. For a parameter built by \<open>_Parameter.__init__\<close> with arity \<open>*\<close>, whose \<open>dest\<close>
  is not yet in the namespace: when the flag is the last token or the token after it
  fails the test of a value, \<open>_store_action\<close> returns, the attribute is the empty list and
  the index is unchanged.
\<close>

theorem zero_or_more_without_values:
  assumes "new_parameter E nm long dst kw = Inr p" "p_nargs p = ZeroOrMore"
    "\<not> listed ns (p_dest p)" "length args \<le> i + 1 \<or> \<not> is_value (args ! (i + 1))"
  shows "store_action E p ns i args = Inr (ns(p_dest p \<mapsto> PyList []), i)"
proof -
  from new_parameter_shape(4,5) [OF assms(1)] assms(2)
  have p: "\<not> p_default_nargs p" "p_action p \<noteq> ''store_true''" "p_action p \<noteq> ''store_false''"
    by auto
  have "takeWhile is_value (drop (i + 1) args) = []"
  proof (cases "length args \<le> i + 1")
    case True
    then show ?thesis by simp
  next
    case False
    then have "i + 1 < length args" by simp
    from Cons_nth_drop_Suc [OF this, symmetric] assms(4) False show ?thesis by simp
  qed
  with p assms(2,3) show ?thesis
    by (simp add: store_action_def parse_list_def store_collected_def)
qed

text \<open>\<open>-z\<close> with arity \<open>*\<close>, followed by a flag and followed by nothing.\<close>

theorem zero_or_more_without_values_witness:
  "new_parameter no_platform ''z'' None ''z''
      (no_kwargs\<lparr>kw_type := Some TInt, kw_nargs := Some (NStr ''*'')\<rparr>)
     = Inr (int_param ''z'' False ZeroOrMore) \<and>
   \<not> is_value ''-x'' \<and>
   store_action no_platform (int_param ''z'' False ZeroOrMore) Map.empty 0 [''-z'', ''-x'']
     = Inr ([''z'' \<mapsto> PyList []], 0) \<and>
   store_action no_platform (int_param ''z'' False ZeroOrMore) Map.empty 0 [''-z'']
     = Inr ([''z'' \<mapsto> PyList []], 0)"
proof -
  have r: "new_parameter no_platform ''z'' None ''z''
      (no_kwargs\<lparr>kw_type := Some TInt, kw_nargs := Some (NStr ''*'')\<rparr>)
     = Inr (int_param ''z'' False ZeroOrMore)"
    by (rule int_param_registered)
  have h: "p_nargs (int_param ''z'' False ZeroOrMore) = ZeroOrMore"
    "\<not> listed Map.empty (p_dest (int_param ''z'' False ZeroOrMore))"
    by (simp_all add: int_param_def listed_def)
  have a: "length [''-z'', ''-x''] \<le> 0 + 1 \<or> \<not> is_value ([''-z'', ''-x''] ! (0 + 1))"
    and b: "length [''-z''] \<le> 0 + 1 \<or> \<not> is_value ([''-z''] ! (0 + 1))"
    by (simp_all add: is_value_examples)
  from zero_or_more_without_values [OF r h a] zero_or_more_without_values [OF r h b] r
  show ?thesis
    by (simp add: is_value_examples) (simp add: int_param_def)
qed

section \<open>Parsing: the test of a value, optional values, the state of a parse\<close>

lemma new_parser_help:
  "new_parser E True None = Inr (empty_parser\<lparr>parameters := [help_param], add_help := True\<rparr>)"
  by (simp add: new_parser_def add_parameter_def new_parameter_def no_kwargs_def empty_parser_def
      re_defs replace_dash_def py_eq_def init_nargs_def help_param_def Let_def)

lemma token_shapes:
  "re_match short_command_re ''-n''" "re_match short_command_re ''-o''"
  "re_match short_bundle_re ''-n''" "re_match short_bundle_re ''-o''"
  "re_match short_bundle_re ''-a''" "re_match short_bundle_re ''-b''"
  by code_simp+

lemma kw_dest_default: "kw_dest no_kwargs = None"
  by (simp add: no_kwargs_def)

lemma replace_dash_examples:
  "replace_dash ''-n'' = ''n''" "replace_dash ''-o'' = ''o''"
  "replace_dash ''-a'' = ''a''" "replace_dash ''-b'' = ''b''"
  by (simp_all add: replace_dash_def)

lemma int_param_unspecified:
  "new_parameter E nm None nm (no_kwargs\<lparr>kw_type := Some TInt, kw_nargs := None\<rparr>)
     = Inr (int_param nm True (Fixed 1))"
  by (simp add: new_parameter_def no_kwargs_def init_nargs_def int_param_def)

lemma parser_n_value:
  "parser_n E (Some (NInt 1)) = Inr (empty_parser\<lparr>parameters := [help_param, int_param ''n'' False (Fixed 1)], add_help := True\<rparr>)"
  "parser_n E None = Inr (empty_parser\<lparr>parameters := [help_param, int_param ''n'' True (Fixed 1)], add_help := True\<rparr>)"
  by (simp_all add: parser_n_def new_parser_help and_then_def add_parameter_def token_shapes
      replace_dash_examples int_param_registered int_param_unspecified kw_dest_default Let_def)
    (simp_all add: help_param_def empty_parser_def)

lemma optional_param_registered:
  "new_parameter E ''o'' None ''o''
     (no_kwargs\<lparr>kw_type := Some TInt, kw_nargs := Some (NStr ''?''),
        kw_default := PyInt 10, kw_const := PyInt 1\<rparr>)
   = Inr ((int_param ''o'' False OptionalOne)\<lparr>p_default := PyInt 10, p_const := PyInt 1\<rparr>)"
  by (simp add: new_parameter_def no_kwargs_def init_nargs_def int_param_def py_eq_def
      convert_field_def check_type_def)

lemma parser_o_value:
  "parser_o E = Inr (empty_parser\<lparr>parameters :=
     [help_param, (int_param ''o'' False OptionalOne)\<lparr>p_default := PyInt 10, p_const := PyInt 1\<rparr>],
     add_help := True\<rparr>)"
  by (simp add: parser_o_def new_parser_help and_then_def add_parameter_def token_shapes
      replace_dash_examples optional_param_registered kw_dest_default Let_def)
    (simp add: help_param_def empty_parser_def)




lemmas run_defs = parse_params_def scan.simps scan_token_def valid_parameter_def do_action_def
  attribute_def store_action_def store_collected_def listed_def parse_list_def parse_value_def
  value_test_token check_type_def check_choices_def check_required_param_def




text \<open>
  \<open>-h\<close> on a parser whose only parameter is the help itself, and on a parser with a
  parameter registered without a long command.
\<close>

lemma print_help_examples:
  "print_help (empty_parser\<lparr>parameters := [help_param], add_help := True\<rparr>) = HelpExit"
  "print_help (empty_parser\<lparr>parameters := [help_param, int_param ''n'' False (Fixed 1)],
                 add_help := True\<rparr>) = Crash TypeError"
  "attribute ''n'' (parse_params no_platform
      (empty_parser\<lparr>parameters := [help_param, int_param ''n'' False (Fixed 1)],
         add_help := True\<rparr>) [''-h''] None) = Inl (Crash TypeError)"
  by code_simp+

lemma scan_n_five:
  "attribute ''n'' (parse_params E
      (empty_parser\<lparr>parameters := [help_param, int_param ''n'' u (Fixed 1)], add_help := True\<rparr>)
      [''-n'', ''5''] None) = Inr (Some (Scalar (PyInt 5)))"
  by (simp add: run_defs token_shapes replace_dash_examples is_value_examples py_int_examples
      help_param_def int_param_def empty_parser_def)

text \<open>
  Claim C2 on the code. \<open>_Parameter.__init__\<close> records in \<open>default_nargs\<close> whether the
  caller gave \<open>nargs\<close>, and the numeric branch of \<open>_store_action\<close> does not read it: it
  tests \<open>len(list_values) is 1\<close>. After \<open>add_parameter('-n', type=int, nargs=1)\<close>, where
  \<open>default_nargs\<close> is \<open>False\<close>, the value stored for \<open>['-n', '5']\<close> is the scalar 5 and not the
  list \<open>[5]\<close>, the same as when \<open>nargs\<close> is not given.
\<close>

theorem explicit_arity_one_stores_scalar:
  "new_parameter E ''n'' None ''n'' (no_kwargs\<lparr>kw_type := Some TInt, kw_nargs := Some (NInt 1)\<rparr>)
     = Inr (int_param ''n'' False (Fixed 1)) \<and>
   p_default_nargs (int_param ''n'' False (Fixed 1)) = False \<and>
   store_action E (int_param ''n'' False (Fixed 1)) Map.empty 0 [''-n'', ''5'']
     = Inr ([''n'' \<mapsto> Scalar (PyInt 5)], 1) \<and>
   store_action E (int_param ''n'' True (Fixed 1)) Map.empty 0 [''-n'', ''5'']
     = Inr ([''n'' \<mapsto> Scalar (PyInt 5)], 1) \<and>
   attribute ''n'' (and_then (parser_n E (Some (NInt 1)))
                     (\<lambda>P. parse_params E P [''-n'', ''5''] None))
     = Inr (Some (Scalar (PyInt 5))) \<and>
   attribute ''n'' (and_then (parser_n E None)
                     (\<lambda>P. parse_params E P [''-n'', ''5''] None))
     = Inr (Some (Scalar (PyInt 5)))"
proof -
  have h: "p_nargs (int_param ''n'' u (Fixed 1)) = Fixed 1"
    "p_action (int_param ''n'' u (Fixed 1)) = ''store''"
    "\<not> listed Map.empty (p_dest (int_param ''n'' u (Fixed 1)))" for u
    by (simp_all add: int_param_def listed_def)
  have run: "store_action E (int_param ''n'' u (Fixed 1)) Map.empty 0 [''-n'', ''5'']
     = Inr ([''n'' \<mapsto> Scalar (PyInt 5)], 1)" for u
    unfolding store_action_fixed [OF h]
    by (simp add: parse_value_int is_value_examples py_int_examples) (simp add: int_param_def)
  have reg: "new_parameter E ''n'' None ''n''
      (no_kwargs\<lparr>kw_type := Some TInt, kw_nargs := Some (NInt 1)\<rparr>)
     = Inr (int_param ''n'' False (Fixed 1))"
    by (rule int_param_registered)
  have dn: "p_default_nargs (int_param ''n'' False (Fixed 1)) = False"
    by (simp add: int_param_def)
  have p1: "attribute ''n'' (and_then (parser_n E (Some (NInt 1)))
                     (\<lambda>P. parse_params E P [''-n'', ''5''] None))
     = Inr (Some (Scalar (PyInt 5)))"
    by (simp only: parser_n_value and_then_def sum.case scan_n_five)
  have p2: "attribute ''n'' (and_then (parser_n E None)
                     (\<lambda>P. parse_params E P [''-n'', ''5''] None))
     = Inr (Some (Scalar (PyInt 5)))"
    by (simp only: parser_n_value and_then_def sum.case scan_n_five)
  from reg dn run [of False] run [of True] p1 p2 show ?thesis by (intro conjI)
qed

text \<open>
  For every parameter that \<open>_Parameter.__init__\<close> builds with an arity that is not a
  number, \<open>default_nargs\<close> is \<open>False\<close>: the branch \<open>list_values[0]\<close> at the end of
  \<open>_store_action\<close> is never taken.
\<close>

lemma head_branch_never_taken:
  assumes "new_parameter E nm long dst kw = Inr p"
    "p_nargs p = OneOrMore \<or> p_nargs p = ZeroOrMore \<or> p_nargs p = OptionalOne"
  shows "\<not> p_default_nargs p"
  using new_parameter_shape(4) [OF assms(1)] assms(2) by auto

text \<open>
  Claim C4 on the code. After \<open>add_parameter('-o', type=int, nargs='?', default=10,
  const=1)\<close>: parsing \<open>[]\<close> gives the scalar 10, and parsing \<open>['-o']\<close> and \<open>['-o', '7']\<close>
  gives the lists \<open>[1]\<close> and \<open>[7]\<close>, not the scalars 1 and 7.
\<close>

theorem optional_one_stores_list:
  "attribute ''o'' (and_then (parser_o E) (\<lambda>P. parse_params E P [] None))
     = Inr (Some (Scalar (PyInt 10))) \<and>
   attribute ''o'' (and_then (parser_o E) (\<lambda>P. parse_params E P [''-o''] None))
     = Inr (Some (PyList [PyInt 1])) \<and>
   attribute ''o'' (and_then (parser_o E) (\<lambda>P. parse_params E P [''-o'', ''7''] None))
     = Inr (Some (PyList [PyInt 7]))"
  by (simp add: parser_o_value and_then_def run_defs value_test_def token_shapes
      replace_dash_examples is_value_examples py_int_examples help_param_def int_param_def
      empty_parser_def)

text \<open>
  Claim C8 on the code. \<open>self.user_name_parameters\<close> is created by \<open>__init__\<close> and never
  emptied: with \<open>-a\<close> and \<open>-b\<close> declared incompatible, \<open>['-a']\<close> parses and \<open>['-b']\<close> parses,
  and \<open>['-b']\<close> parsed by the parser that has parsed \<open>['-a']\<close> is refused as incompatible.
\<close>

theorem resolved_names_kept_across_calls:
  "incompatible_params flags_ab [AStr ''-a'', AStr ''-b''] = Some (Inr exclusive_ab) \<and>
   attribute ''a'' (parse_params no_platform exclusive_ab [''-a''] None)
     = Inr (Some (Scalar (PyBool True))) \<and>
   attribute ''b'' (parse_params no_platform exclusive_ab [''-b''] None)
     = Inr (Some (Scalar (PyBool True))) \<and>
   attribute ''b'' (and_then (parse_params no_platform exclusive_ab [''-a''] None)
                     (\<lambda>r. parse_params no_platform (fst r) [''-b''] None))
     = Inl (Error (IncompatibleParameters [''-b'']))"
proof -
  have "incompatible_params flags_ab [AStr ''-a'', AStr ''-b''] = Some (Inr exclusive_ab)"
    by (simp add: incompatible_params_def restrict_pair flags_ab_valid replace_dash_def
        exclusive_ab_def)
      (simp add: flags_ab_def empty_parser_def)
  moreover have "attribute ''a'' (parse_params no_platform exclusive_ab [''-a''] None)
     = Inr (Some (Scalar (PyBool True)))"
    "attribute ''b'' (parse_params no_platform exclusive_ab [''-b''] None)
     = Inr (Some (Scalar (PyBool True)))"
    "attribute ''b'' (and_then (parse_params no_platform exclusive_ab [''-a''] None)
                     (\<lambda>r. parse_params no_platform (fst r) [''-b''] None))
     = Inl (Error (IncompatibleParameters [''-b'']))"
    by code_simp+
  ultimately show ?thesis by (intro conjI)
qed

section \<open>Completion of the namespace\<close>

lemma bundle_loop_parameters:
  "bundle_loop E P ns i args cs = Inr (P', ns', i') \<Longrightarrow> parameters P' = parameters P"
proof (induction cs arbitrary: P ns i)
  case Nil
  then show ?case by simp
next
  case (Cons c cs)
  from Cons.prems show ?case
    by (auto split: option.splits sum.splits dest!: Cons.IH)
qed

lemma scan_token_parameters:
  "scan_token E P ns i args = Inr (P', ns', i') \<Longrightarrow> parameters P' = parameters P"
  by (auto simp: scan_token_def split: if_splits option.splits sum.splits
      dest: bundle_loop_parameters)

lemma scan_parameters:
  "scan E P ns i args = Inr (P', ns') \<Longrightarrow> parameters P' = parameters P"
proof (induction E P ns i args rule: scan.induct)
  case (1 E P ns index args)
  show ?case
  proof (cases "index < length args")
    case False
    with "1.prems" show ?thesis by (simp add: scan.simps)
  next
    case True
    with "1.prems" obtain P1 ns1 i1 where
      tok: "scan_token E P ns index args = Inr (P1, ns1, i1)" and
      rest: "scan E P1 ns1 (i1 + 1) args = Inr (P', ns')"
      by (subst (asm) scan.simps) (auto split: sum.splits)
    from "1.IH" [OF True tok refl refl rest] scan_token_parameters [OF tok]
    show ?thesis by simp
  qed
qed

lemma complete_namespace_keeps:
  "ns d = Some v \<Longrightarrow> fst (complete_namespace ps ns) d = Some v"
proof (induction ps arbitrary: ns)
  case Nil
  then show ?case by simp
next
  case (Cons q qs)
  show ?case
  proof (cases "p_default q \<noteq> Suppress \<and> ns (p_dest q) = None")
    case True
    define ns2 where "ns2 = ns(p_dest q \<mapsto> Scalar (p_default q))"
    from True Cons.prems have "ns2 d = Some v" unfolding ns2_def by auto
    moreover from True
    have "fst (complete_namespace (q # qs) ns) = fst (complete_namespace qs ns2)"
      unfolding ns2_def by simp
    ultimately show ?thesis using Cons.IH [of ns2] by simp
  next
    case False
    with Cons.IH [of ns, OF Cons.prems] show ?thesis by auto
  qed
qed

lemma complete_namespace_writes_absent:
  "d \<in> set (snd (complete_namespace ps ns)) \<Longrightarrow> ns d = None \<and> d \<in> p_dest ` set ps"
proof (induction ps arbitrary: ns)
  case Nil
  then show ?case by simp
next
  case (Cons q qs)
  show ?case
  proof (cases "p_default q \<noteq> Suppress \<and> ns (p_dest q) = None")
    case True
    with Cons.prems have "d = p_dest q \<or>
        d \<in> set (snd (complete_namespace qs (ns(p_dest q \<mapsto> Scalar (p_default q)))))"
      by auto
    then show ?thesis
    proof
      assume "d = p_dest q"
      with True show ?thesis by simp
    next
      assume "d \<in> set (snd (complete_namespace qs (ns(p_dest q \<mapsto> Scalar (p_default q)))))"
      from Cons.IH [OF this] show ?thesis
        by (auto split: if_splits)
    qed
  next
    case False
    with Cons.prems have "d \<in> set (snd (complete_namespace qs ns))" by auto
    from Cons.IH [OF this] show ?thesis by simp
  qed
qed

lemma complete_namespace_default:
  assumes "distinct (map p_dest ps)" "p \<in> set ps" "p_default p \<noteq> Suppress"
    "ns (p_dest p) = None"
  shows "fst (complete_namespace ps ns) (p_dest p) = Some (Scalar (p_default p)) \<and>
    count_list (snd (complete_namespace ps ns)) (p_dest p) = 1"
  using assms
proof (induction ps arbitrary: ns)
  case Nil
  then show ?case by simp
next
  case (Cons q qs)
  show ?case
  proof (cases "q = p")
    case True
    from Cons.prems(1) True have "p_dest p \<notin> p_dest ` set qs" by auto
    then have "p_dest p \<notin> set (snd (complete_namespace qs ns'))" for ns'
      using complete_namespace_writes_absent [of "p_dest p" qs ns'] by blast
    with True Cons.prems(3,4) show ?thesis
      by (simp add: complete_namespace_keeps count_list_0_iff)
  next
    case False
    with Cons.prems have p: "p \<in> set qs" and d: "p_dest q \<noteq> p_dest p" by auto
    from Cons.prems(1) have dist: "distinct (map p_dest qs)" by simp
    define ns2 where "ns2 = ns(p_dest q \<mapsto> Scalar (p_default q))"
    from d Cons.prems(4) have upd: "ns2 (p_dest p) = None" unfolding ns2_def by simp
    note IH1 = Cons.IH [of ns, OF dist p Cons.prems(3) Cons.prems(4)]
    note IH2 = Cons.IH [of ns2, OF dist p Cons.prems(3) upd]
    show ?thesis
    proof (cases "p_default q \<noteq> Suppress \<and> ns (p_dest q) = None")
      case True
      then have "complete_namespace (q # qs) ns
          = (fst (complete_namespace qs ns2), p_dest q # snd (complete_namespace qs ns2))"
        unfolding ns2_def by simp
      with IH2 d show ?thesis by simp
    next
      case False
      then have "complete_namespace (q # qs) ns = complete_namespace qs ns" by auto
      with IH1 show ?thesis by simp
    qed
  qed
qed

text \<open>
  Claim C7. When \<open>parse_params\<close> returns for a parser whose parameters have distinct
  \<open>dest\<close>s (as \<open>add_parameter\<close> keeps them): every parameter whose default is not
  \<open>SUPPRESS\<close> and whose \<open>dest\<close> is absent from the namespace after the scan has its default
  in the namespace returned, set by exactly one \<open>setattr\<close> of \<open>_complete_namespace\<close>; and
  what the scan has stored is kept.
\<close>

theorem defaults_completed:
  assumes "parse_params E P args namespace = Inr (P', ns)"
    "distinct (map p_dest (parameters P))"
  shows "\<exists>ns0. scan E P (case namespace of None \<Rightarrow> Map.empty | Some n \<Rightarrow> n) 0 args = Inr (P', ns0) \<and>
     (\<forall>p \<in> set (parameters P). p_default p \<noteq> Suppress \<and> ns0 (p_dest p) = None \<longrightarrow>
        ns (p_dest p) = Some (Scalar (p_default p)) \<and>
        count_list (snd (complete_namespace (parameters P) ns0)) (p_dest p) = 1) \<and>
     (\<forall>d v. ns0 d = Some v \<longrightarrow> ns d = Some v)"
proof -
  from assms(1) obtain ns0 where
    sc: "scan E P (case namespace of None \<Rightarrow> Map.empty | Some n \<Rightarrow> n) 0 args = Inr (P', ns0)"
    and ns: "ns = fst (complete_namespace (parameters P') ns0)"
    by (auto simp: parse_params_def split: sum.splits if_splits option.splits)
  from scan_parameters [OF sc] have par: "parameters P' = parameters P" .
  show ?thesis
    using sc complete_namespace_default [OF assms(2)] complete_namespace_keeps
    unfolding ns par by blast
qed

text \<open>The registry keeps the \<open>dest\<close>s distinct.\<close>

lemma add_parameter_distinct_dest:
  assumes "add_parameter E P sc lc kw = Inr P'" "distinct (map p_dest (parameters P))"
  shows "distinct (map p_dest (parameters P'))"
proof -
  from assms(1) obtain nm long dst np where
    np: "new_parameter E nm long dst kw = Inr np"
    and fresh: "\<not> list_ex (\<lambda>p. p_dest p = dst) (parameters P)"
    and P': "P' = P\<lparr>parameters := parameters P @ [np]\<rparr>"
    unfolding add_parameter_def Let_def
    by (auto split: option.splits if_splits sum.splits)
  from new_parameter_shape(1) [OF np] fresh assms(2) show ?thesis
    unfolding P' by (auto simp: list_ex_iff)
qed

text \<open>The parser with \<open>-h\<close> and \<open>-o\<close>, on no tokens.\<close>

theorem defaults_completed_witness:
  "distinct (map p_dest [help_param,
      (int_param ''o'' False OptionalOne)\<lparr>p_default := PyInt 10, p_const := PyInt 1\<rparr>]) \<and>
   (\<exists>P' ns. parse_params no_platform
       (empty_parser\<lparr>parameters := [help_param,
          (int_param ''o'' False OptionalOne)\<lparr>p_default := PyInt 10, p_const := PyInt 1\<rparr>]\<rparr>)
       [] None = Inr (P', ns) \<and> ns ''o'' = Some (Scalar (PyInt 10)) \<and> ns ''help'' = None)"
proof -
  define po where "po = (int_param ''o'' False OptionalOne)\<lparr>p_default := PyInt 10, p_const := PyInt 1\<rparr>"
  define P where "P = empty_parser\<lparr>parameters := [help_param, po]\<rparr>"
  have d: "distinct (map p_dest (parameters P))"
    by (simp add: P_def po_def help_param_def int_param_def)
  have sc: "scan no_platform P Map.empty 0 [] = Inr (P, Map.empty)"
    by (simp add: scan.simps)
  obtain ns where run: "parse_params no_platform P [] None = Inr (P, ns)"
    and h: "ns ''help'' = None"
    by (simp add: parse_params_def sc check_required_param_def)
      (simp add: P_def po_def help_param_def int_param_def empty_parser_def)
  from defaults_completed [OF run d] sc
  have "\<forall>p \<in> set (parameters P). p_default p \<noteq> Suppress \<and> Map.empty (p_dest p) = None \<longrightarrow>
        ns (p_dest p) = Some (Scalar (p_default p))"
    by auto
  then have "p_default po \<noteq> Suppress \<and> Map.empty (p_dest po) = None \<longrightarrow>
        ns (p_dest po) = Some (Scalar (p_default po))"
    by (simp add: P_def)
  then have "ns ''o'' = Some (Scalar (PyInt 10))"
    by (simp add: po_def int_param_def)
  with d run h show ?thesis
    unfolding P_def po_def by auto
qed

end
